theory Spec2Isabelle
  imports Main
begin

section \<open>JavaScript values\<close>

text \<open>
  The adapter moves untyped JavaScript values around: header values, cookie values, request
  bodies, command payloads, error fields. They are modelled by one datatype. A number is an
  integer here (HTTP status codes are); an object is the list of its own enumerable
  properties in enumeration order, whose keys are pairwise different in a real object.
\<close>

datatype jsval =
    JUndefined
  | JNull
  | JBool bool
  | JNum int
  | JStr string
  | JArr "jsval list"
  | JObj "(string \<times> jsval) list"

text \<open>\<^verbatim>\<open>v == null\<close>: true of \<^verbatim>\<open>null\<close> and \<^verbatim>\<open>undefined\<close> only.\<close>

fun nullish :: "jsval \<Rightarrow> bool" where
  "nullish JUndefined = True"
| "nullish JNull = True"
| "nullish _ = False"

text \<open>\<^verbatim>\<open>a ?? b\<close>\<close>

definition coalesce :: "jsval \<Rightarrow> jsval \<Rightarrow> jsval" where
  "coalesce a b = (if nullish a then b else a)"

text \<open>\<^verbatim>\<open>typeof v === 'number'\<close> and \<^verbatim>\<open>typeof v === 'string'\<close>\<close>

fun is_number :: "jsval \<Rightarrow> bool" where
  "is_number (JNum n) = True"
| "is_number _ = False"

fun is_string :: "jsval \<Rightarrow> bool" where
  "is_string (JStr s) = True"
| "is_string _ = False"

text \<open>Decimal digits of a natural number: the keys of array elements and string characters.\<close>

definition digit_char :: "nat \<Rightarrow> char" where
  "digit_char d = ''0123456789'' ! d"

fun show_nat :: "nat \<Rightarrow> string" where
  "show_nat n = (if n < 10 then [digit_char n] else show_nat (n div 10) @ [digit_char (n mod 10)])"

declare show_nat.simps [simp del]

fun index_entries :: "nat \<Rightarrow> 'a list \<Rightarrow> (string \<times> 'a) list" where
  "index_entries i [] = []"
| "index_entries i (x # xs) = (show_nat i, x) # index_entries (Suc i) xs"

text \<open>\<^verbatim>\<open>obj[k]\<close> on an object: the property, or \<^verbatim>\<open>undefined\<close>.\<close>

definition own_property :: "(string \<times> jsval) list \<Rightarrow> string \<Rightarrow> jsval" where
  "own_property kvs k = (case map_of kvs k of None \<Rightarrow> JUndefined | Some v \<Rightarrow> v)"

text \<open>
  \<^verbatim>\<open>for (let k in v) { ... v[k] ... }\<close>: the keys the loop visits, each with the value
  \<^verbatim>\<open>v[k]\<close> its body reads. The loop visits nothing on \<^verbatim>\<open>null\<close>, \<^verbatim>\<open>undefined\<close>,
  booleans and numbers, the indices of an array or a string, and the own enumerable keys of
  an object.
\<close>

fun for_in_entries :: "jsval \<Rightarrow> (string \<times> jsval) list" where
  "for_in_entries (JObj kvs) = map (\<lambda>k. (k, own_property kvs k)) (map fst kvs)"
| "for_in_entries (JArr xs) = index_entries 0 xs"
| "for_in_entries (JStr s) = index_entries 0 (map (\<lambda>c. JStr [c]) s)"
| "for_in_entries _ = []"

text \<open>
  The exceptions of the modelled code: the TypeError of the JavaScript runtime, and the error
  with which the Fastify instance refuses a call.
\<close>

datatype js_exception = TypeError | FastifyError

section \<open>The native response\<close>

text \<open>
  The Fastify reply belongs to the HTTP library. It is modelled by the calls the adapter
  makes on it, oldest first; what the reply shows afterwards is read off that list.
\<close>

datatype reply_call =
    Header string jsval
  | Status jsval
  | SetCookie string jsval jsval
  | Send jsval

type_synonym FastifyReply = "reply_call list"

text \<open>The status of the reply: the argument of the latest \<^verbatim>\<open>status\<close> call.\<close>

fun reply_status :: "FastifyReply \<Rightarrow> jsval option" where
  "reply_status [] = None"
| "reply_status (c # cs) =
     (case reply_status cs of
        Some s \<Rightarrow> Some s
      | None \<Rightarrow> (case c of Status s \<Rightarrow> Some s | _ \<Rightarrow> None))"

text \<open>A header of the reply: the argument of the latest \<^verbatim>\<open>header\<close> call under that name.\<close>

fun reply_header :: "FastifyReply \<Rightarrow> string \<Rightarrow> jsval option" where
  "reply_header [] name = None"
| "reply_header (c # cs) name =
     (case reply_header cs name of
        Some v \<Rightarrow> Some v
      | None \<Rightarrow> (case c of Header n v \<Rightarrow> (if n = name then Some v else None) | _ \<Rightarrow> None))"

text \<open>How a handler settles the promise returned to Fastify.\<close>

datatype settle = Resolve jsval | Reject jsval

section \<open>ErrorHandler\<close>

text \<open>
  An error object, by the three properties the handlers read. A property the object does not
  have reads as \<^verbatim>\<open>undefined\<close>. \<open>instanceof_ApiError\<close> is the outcome of
  \<^verbatim>\<open>error instanceof ApiError\<close>, which only the older handler asks.
\<close>

record js_error =
  err_message :: jsval
  err_exitCode :: jsval
  err_httpStatus :: jsval
  instanceof_ApiError :: bool

text \<open>
  The handler the adapter installs (the variant written against \<^verbatim>\<open>maestro\<close>):
  \<^verbatim>\<open>
  let errorPayload = { exitCode: 'REQUEST_REFUSED', message: error.message };
  if (typeof error.exitCode === 'string') errorPayload.exitCode = error.exitCode;
  if (typeof error.httpStatus === 'number') {
    response.status(error.httpStatus); resolve(errorPayload);
  } else {
    response.status(500); reject(errorPayload);
  }
  \<close>
\<close>

definition ErrorPayload :: "js_error \<Rightarrow> jsval" where
  "ErrorPayload error =
     JObj [(''exitCode'',
             (if is_string (err_exitCode error) then err_exitCode error
              else JStr ''REQUEST_REFUSED'')),
           (''message'', err_message error)]"

definition ErrorHandler :: "FastifyReply \<Rightarrow> js_error \<Rightarrow> FastifyReply \<times> settle" where
  "ErrorHandler response error =
     (if is_number (err_httpStatus error)
      then (response @ [Status (err_httpStatus error)], Resolve (ErrorPayload error))
      else (response @ [Status (JNum 500)], Reject (ErrorPayload error)))"

text \<open>
  The older variant (written against \<^verbatim>\<open>auria-maestro\<close>):
  \<^verbatim>\<open>
  if (error instanceof ApiError) {
    response.status(error.httpStatus); response.send(error.message); resolve(error.message);
  } else {
    response.status(500); reject(error.message);
  }
  \<close>
\<close>

definition ErrorHandler_auria :: "FastifyReply \<Rightarrow> js_error \<Rightarrow> FastifyReply \<times> settle" where
  "ErrorHandler_auria response error =
     (if instanceof_ApiError error
      then (response @ [Status (err_httpStatus error), Send (err_message error)],
            Resolve (err_message error))
      else (response @ [Status (JNum 500)], Reject (err_message error)))"

section \<open>Commands\<close>

text \<open>\<^verbatim>\<open>Adapter.ADAPTER_NAME\<close>\<close>

definition ADAPTER_NAME :: string where
  "ADAPTER_NAME = ''Fastify''"

text \<open>
  The \<^verbatim>\<open>adapters\<close> field of a command is optional and holds one adapter name or an
  array of names.
\<close>

datatype adapters_filter =
    NoFilter
  | OneAdapter string
  | ManyAdapters "string list"

record ICommand =
  cmd_name :: string
  cmd_adapters :: adapters_filter
  cmd_payload :: jsval

text \<open>
  \<^verbatim>\<open>ICommand | ICommand[]\<close>. The dispatch calls itself on every element of an array, so
  an element may be an array again.
\<close>

datatype commands =
    Single ICommand
  | Several "commands list"

text \<open>
  An array index is a key that is the decimal text of a number below \<open>2\<^sup>3\<^sup>2 - 1\<close>. An
  object enumerates its array indices first, in ascending order, and its other keys after
  them, in the order of their creation.
\<close>

definition digit_of :: "char \<Rightarrow> nat" where
  "digit_of c = length (takeWhile (\<lambda>d. d \<noteq> c) ''0123456789'')"

definition digits_value :: "string \<Rightarrow> nat" where
  "digits_value s = foldl (\<lambda>n c. 10 * n + digit_of c) 0 s"

definition array_index :: "string \<Rightarrow> nat option" where
  "array_index s =
     (if s \<noteq> [] \<and> list_all (\<lambda>c. c \<in> set ''0123456789'') s
         \<and> (length s = 1 \<or> hd s \<noteq> CHR ''0'') \<and> digits_value s < 4294967295
      then Some (digits_value s) else None)"

text \<open>
  Writing a property of an object: a key the object has keeps its place and takes the new
  value; a new array index goes to its place among the array indices, any other new key
  goes last.
\<close>

fun set_property :: "(string \<times> jsval) list \<Rightarrow> string \<Rightarrow> jsval \<Rightarrow> (string \<times> jsval) list" where
  "set_property [] k v = [(k, v)]"
| "set_property ((k', v') # kvs) k v =
     (if k' = k then (k, v) # kvs
      else (case array_index k of
              None \<Rightarrow> (k', v') # set_property kvs k v
            | Some i \<Rightarrow>
                (case array_index k' of
                   None \<Rightarrow> (k, v) # (k', v') # kvs
                 | Some j \<Rightarrow>
                     (if i < j then (k, v) # (k', v') # kvs
                      else (k', v') # set_property kvs k v))))"

text \<open>
  \<^verbatim>\<open>Adapter.CreateCookie(name, value, options)\<close> builds the object
  \<^verbatim>\<open>{ name: 'create-cookie', adapters: [Adapter.ADAPTER_NAME],
     payload: { name, value, ...options } }\<close>: the properties of \<^verbatim>\<open>options\<close> are
  written, in their order, into the object that has \<^verbatim>\<open>name\<close> and \<^verbatim>\<open>value\<close>.
\<close>

definition Adapter_CreateCookie :: "string \<Rightarrow> string \<Rightarrow> (string \<times> jsval) list \<Rightarrow> ICommand" where
  "Adapter_CreateCookie name val options =
     \<lparr>cmd_name = ''create-cookie'',
      cmd_adapters = ManyAdapters [ADAPTER_NAME],
      cmd_payload =
        JObj (fold (\<lambda>(k, v) obj. set_property obj k v) options
               [(''name'', JStr name), (''value'', JStr val)])\<rparr>"

text \<open>How a call ends: it returns, or it raises.\<close>

datatype completion = Normal | Thrown js_exception

text \<open>
  \<^verbatim>\<open>'set-header'\<close>:
  \<^verbatim>\<open>for (let headerName in headers) response.header(headerName, headers[headerName]);\<close>
\<close>

definition set_header :: "FastifyReply \<Rightarrow> jsval \<Rightarrow> FastifyReply \<times> completion" where
  "set_header response headers =
     (response @ map (\<lambda>(headerName, v). Header headerName v) (for_in_entries headers), Normal)"

text \<open>
  \<^verbatim>\<open>x.value\<close>: a TypeError on \<^verbatim>\<open>null\<close> and \<^verbatim>\<open>undefined\<close>, the property of an
  object, and \<^verbatim>\<open>undefined\<close> on every other value (none of their prototypes has a
  member of that name).
\<close>

fun read_value_member :: "jsval \<Rightarrow> js_exception + jsval" where
  "read_value_member JUndefined = Inl TypeError"
| "read_value_member JNull = Inl TypeError"
| "read_value_member (JObj kvs) = Inr (own_property kvs ''value'')"
| "read_value_member _ = Inr JUndefined"

text \<open>
  \<^verbatim>\<open>'create-cookie'\<close>:
  \<^verbatim>\<open>for (let cookieName in cookies)
    response.setCookie(cookieName, cookies[cookieName].value, cookies[cookieName]);\<close>
  The loop stops at the first entry whose \<^verbatim>\<open>.value\<close> cannot be read; the cookies set
  before stay set.
\<close>

fun set_cookies :: "FastifyReply \<Rightarrow> (string \<times> jsval) list \<Rightarrow> FastifyReply \<times> completion" where
  "set_cookies response [] = (response, Normal)"
| "set_cookies response ((cookieName, c) # rest) =
     (case read_value_member c of
        Inl e \<Rightarrow> (response, Thrown e)
      | Inr v \<Rightarrow> set_cookies (response @ [SetCookie cookieName v c]) rest)"

definition create_cookie :: "FastifyReply \<Rightarrow> jsval \<Rightarrow> FastifyReply \<times> completion" where
  "create_cookie response cookies = set_cookies response (for_in_entries cookies)"

text \<open>
  \<^verbatim>\<open>Commands\<close> is an object literal with the two members above. The dispatch reads
  \<^verbatim>\<open>(Commands as any)[commands.name]\<close>, an ordinary property read: besides the two own
  members it finds what every object literal inherits from \<^verbatim>\<open>Object.prototype\<close>, the
  eleven functions below and the accessor \<^verbatim>\<open>__proto__\<close>, whose value on \<^verbatim>\<open>Commands\<close>
  is the prototype object itself. Every other name reads as \<^verbatim>\<open>undefined\<close>.
\<close>

datatype command_member =
    SetHeader
  | CreateCookie
  | InheritedFunction string
  | InheritedPrototype

definition Object_prototype_functions :: "string list" where
  "Object_prototype_functions =
     [''constructor'', ''__defineGetter__'', ''__defineSetter__'', ''hasOwnProperty'',
      ''__lookupGetter__'', ''__lookupSetter__'', ''isPrototypeOf'',
      ''propertyIsEnumerable'', ''toString'', ''valueOf'', ''toLocaleString'']"

definition Commands :: "string \<Rightarrow> command_member option" where
  "Commands name =
     (if name = ''set-header'' then Some SetHeader
      else if name = ''create-cookie'' then Some CreateCookie
      else if name = ''__proto__'' then Some InheritedPrototype
      else if name \<in> set Object_prototype_functions then Some (InheritedFunction name)
      else None)"

text \<open>
  \<^verbatim>\<open>(Commands as any)[commands.name](response, commands.payload)\<close>. Calling the prototype
  object raises a TypeError: it is not a function. \<^verbatim>\<open>__defineGetter__\<close> and
  \<^verbatim>\<open>__defineSetter__\<close> raise a TypeError because their second argument, the payload, is
  not a function (no \<open>jsval\<close> is). The other inherited functions inspect \<^verbatim>\<open>Commands\<close>
  or their first argument and return; none of them calls a method of the reply.
\<close>

fun call_member :: "command_member \<Rightarrow> FastifyReply \<Rightarrow> jsval \<Rightarrow> FastifyReply \<times> completion" where
  "call_member SetHeader response payload = set_header response payload"
| "call_member CreateCookie response payload = create_cookie response payload"
| "call_member InheritedPrototype response payload = (response, Thrown TypeError)"
| "call_member (InheritedFunction f) response payload =
     (if f = ''__defineGetter__'' \<or> f = ''__defineSetter__''
      then (response, Thrown TypeError)
      else (response, Normal))"

text \<open>
  The branch of \<^verbatim>\<open>applyCommandsToResponse\<close> for one command:
  \<^verbatim>\<open>
  if (Array.isArray(commands.adapters)) {
    if (!commands.adapters.includes(Adapter.ADAPTER_NAME)) return;
  }
  if (commands.adapters == null || commands.adapters === Adapter.ADAPTER_NAME) {
    if ((Commands as any)[commands.name] != null)
      (Commands as any)[commands.name](response, commands.payload);
  }
  \<close>
\<close>

fun isArray_without_adapter :: "adapters_filter \<Rightarrow> bool" where
  "isArray_without_adapter (ManyAdapters names) = (ADAPTER_NAME \<notin> set names)"
| "isArray_without_adapter _ = False"

fun unspecified_or_this_adapter :: "adapters_filter \<Rightarrow> bool" where
  "unspecified_or_this_adapter NoFilter = True"
| "unspecified_or_this_adapter (OneAdapter name) = (name = ADAPTER_NAME)"
| "unspecified_or_this_adapter (ManyAdapters names) = False"

definition applyCommand :: "FastifyReply \<Rightarrow> ICommand \<Rightarrow> FastifyReply \<times> completion" where
  "applyCommand response command =
     (if isArray_without_adapter (cmd_adapters command) then (response, Normal)
      else if unspecified_or_this_adapter (cmd_adapters command) then
        (case Commands (cmd_name command) of
           Some member \<Rightarrow> call_member member response (cmd_payload command)
         | None \<Rightarrow> (response, Normal))
      else (response, Normal))"

text \<open>
  \<^verbatim>\<open>applyCommandsToResponse\<close>: an array is walked in order, one command is applied as
  above. An exception ends the walk.
\<close>

fun applyCommandsToResponse :: "FastifyReply \<Rightarrow> commands \<Rightarrow> FastifyReply \<times> completion"
  and applyCommandArray :: "FastifyReply \<Rightarrow> commands list \<Rightarrow> FastifyReply \<times> completion" where
  "applyCommandsToResponse response (Several cs) = applyCommandArray response cs"
| "applyCommandsToResponse response (Single command) = applyCommand response command"
| "applyCommandArray response [] = (response, Normal)"
| "applyCommandArray response (c # cs) =
     (case applyCommandsToResponse response c of
        (response', Normal) \<Rightarrow> applyCommandArray response' cs
      | (response', Thrown e) \<Rightarrow> (response', Thrown e))"

section \<open>SendResponse\<close>

record IApiRouteResponse =
  resp_payload :: jsval
  resp_commands :: "commands option"
  resp_exitCode :: jsval
  resp_status :: jsval

text \<open>
  \<^verbatim>\<open>
  let send = routeResp.payload ?? {};
  if (routeResp.commands != null) applyCommandsToResponse(response, routeResp.commands);
  response.header('X-Exit-Code', routeResp.exitCode);
  response.status(routeResp.status);
  resolve(send);
  \<close>
  The result is the reply, and either the exception that left the function or the way it
  settled the promise.
\<close>

definition SendResponse ::
  "IApiRouteResponse \<Rightarrow> FastifyReply \<Rightarrow> FastifyReply \<times> (js_exception + settle)" where
  "SendResponse routeResp response =
     (let send = coalesce (resp_payload routeResp) (JObj []);
          applied = (case resp_commands routeResp of
                       Some cs \<Rightarrow> applyCommandsToResponse response cs
                     | None \<Rightarrow> (response, Normal))
      in case applied of
           (response', Thrown e) \<Rightarrow> (response', Inl e)
         | (response', Normal) \<Rightarrow>
             (response' @ [Header ''X-Exit-Code'' (resp_exitCode routeResp),
                           Status (resp_status routeResp)],
              Inr (Resolve send)))"

section \<open>TransformRequest\<close>

text \<open>
  The Fastify request, by the properties \<^verbatim>\<open>TransformRequest\<close> reads. \<^verbatim>\<open>headers\<close> is
  always an object; \<^verbatim>\<open>ips\<close> is absent unless the server trusts a proxy; the other four
  are whatever the HTTP library parsed, possibly \<^verbatim>\<open>undefined\<close>.
\<close>

record FastifyRequest =
  req_url :: string
  req_ips :: "string list option"
  req_ip :: string
  req_headers :: "(string \<times> jsval) list"
  req_cookies :: jsval
  req_body :: jsval
  req_query :: jsval
  req_params :: jsval

text \<open>\<^verbatim>\<open>xs.join(sep)\<close> on an array of strings.\<close>

fun join :: "string \<Rightarrow> string list \<Rightarrow> string" where
  "join sep [] = []"
| "join sep [x] = x"
| "join sep (x # y # ys) = x @ sep @ join sep (y # ys)"

text \<open>
  What \<^verbatim>\<open>'...' + v\<close> appends for a value \<^verbatim>\<open>v\<close>: the string itself, the name of
  \<^verbatim>\<open>undefined\<close>, \<^verbatim>\<open>null\<close> or a boolean, the text of a number, the elements of an
  array joined by commas (\<^verbatim>\<open>null\<close> and \<^verbatim>\<open>undefined\<close> elements as empty strings), and
  \<^verbatim>\<open>[object Object]\<close> for an object. The text JavaScript prints for a number
  (plain digits for small integers, an exponent form for large ones) is the parameter
  \<open>number_text\<close>; \<open>show_int\<close>, the plain digits, is what it is for the integers of
  magnitude below \<open>2\<^sup>5\<^sup>3\<close>.
\<close>

definition show_int :: "int \<Rightarrow> string" where
  "show_int i = (if i < 0 then CHR ''-'' # show_nat (nat (- i)) else show_nat (nat i))"

fun to_string :: "(int \<Rightarrow> string) \<Rightarrow> jsval \<Rightarrow> string" where
  "to_string number_text JUndefined = ''undefined''"
| "to_string number_text JNull = ''null''"
| "to_string number_text (JBool b) = (if b then ''true'' else ''false'')"
| "to_string number_text (JNum n) = number_text n"
| "to_string number_text (JStr s) = s"
| "to_string number_text (JArr xs) =
     join '','' (map (\<lambda>x. if nullish x then [] else to_string number_text x) xs)"
| "to_string number_text (JObj kvs) = ''[object Object]''"

text \<open>
  \<^verbatim>\<open>RouteRequest\<close> is a class of the \<^verbatim>\<open>maestro\<close> package, outside this repository. The
  model keeps what the adapter hands to it: the two constructor arguments, the two fields
  the adapter assigns, and every \<^verbatim>\<open>add(name, value, origin)\<close> call, oldest first.
\<close>

datatype HTTPMethod =
    HTTP_all | HTTP_connect | HTTP_delete | HTTP_get | HTTP_head | HTTP_options
  | HTTP_patch | HTTP_post | HTTP_put | HTTP_search | HTTP_trace

record RouteRequest =
  rr_adapter :: string
  rr_url :: string
  rr_identification :: "string option"
  rr_method :: "HTTPMethod option"
  rr_added :: "(string \<times> jsval \<times> string) list"

definition new_RouteRequest :: "string \<Rightarrow> string \<Rightarrow> RouteRequest" where
  "new_RouteRequest adapter url =
     \<lparr>rr_adapter = adapter, rr_url = url, rr_identification = None, rr_method = None,
      rr_added = []\<rparr>"

definition add :: "string \<Rightarrow> jsval \<Rightarrow> string \<Rightarrow> RouteRequest \<Rightarrow> RouteRequest" where
  "add name v origin req = req\<lparr>rr_added := rr_added req @ [(name, v, origin)]\<rparr>"

text \<open>
  Modelled from the spec: \<^verbatim>\<open>RouteRequest.add\<close> is not in the repository. The spec describes
  the outcome of the copying as a normalized mapping keyed by parameter name, with
  last-write-wins on collision across sources: each \<^verbatim>\<open>add\<close> call stores its value under
  its name, over what an earlier call stored there.
\<close>

definition parameters :: "RouteRequest \<Rightarrow> (string \<rightharpoonup> jsval)" where
  "parameters req = fold (\<lambda>(name, v, origin) m. m(name \<mapsto> v)) (rr_added req) Map.empty"

text \<open>
  What one copying loop leaves under a name: the value of the last entry of the source with
  that key, or nothing when the source has no such key. On an object this is the property.
\<close>

definition source_value :: "jsval \<Rightarrow> string \<Rightarrow> jsval option" where
  "source_value src k = map_of (rev (for_in_entries src)) k"

text \<open>One of the five copying loops: \<^verbatim>\<open>for (let k in src) req.add(k, src[k], origin);\<close>\<close>

definition add_all :: "jsval \<Rightarrow> string \<Rightarrow> RouteRequest \<Rightarrow> RouteRequest" where
  "add_all src origin req = fold (\<lambda>(k, v) r. add k v origin r) (for_in_entries src) req"

text \<open>
  \<^verbatim>\<open>
  let req = new RouteRequest(Adapter.ADAPTER_NAME, request.url);
  let requestIdentification = (request.ips != null ? request.ips.join(' - ') : request.ip)
    + " | " + request.headers["user-agent"] ?? "UA-NOT-PROVIDED";
  req.identification = requestIdentification;
  let body = request.body ?? {}; let query = request.query ?? {};
  let params = request.params ?? {};
  \<close>
  followed by the copying loops over headers, cookies, body, query and params, in this
  order. In the identification \<^verbatim>\<open>+\<close> binds tighter than \<^verbatim>\<open>??\<close>: the left operand of
  \<^verbatim>\<open>??\<close> is the whole concatenation, a string, so the fallback is never taken.
\<close>

definition requestIdentification :: "(int \<Rightarrow> string) \<Rightarrow> FastifyRequest \<Rightarrow> string" where
  "requestIdentification number_text request =
     (case req_ips request of Some ips \<Rightarrow> join '' - '' ips | None \<Rightarrow> req_ip request)
     @ '' | '' @ to_string number_text (own_property (req_headers request) ''user-agent'')"

definition TransformRequest :: "(int \<Rightarrow> string) \<Rightarrow> FastifyRequest \<Rightarrow> RouteRequest" where
  "TransformRequest number_text request =
     (let req = new_RouteRequest ADAPTER_NAME (req_url request);
          req = req\<lparr>rr_identification := Some (requestIdentification number_text request)\<rparr>;
          body = coalesce (req_body request) (JObj []);
          query = coalesce (req_query request) (JObj []);
          params = coalesce (req_params request) (JObj []);
          req = add_all (JObj (req_headers request)) ''header'' req;
          req = add_all (req_cookies request) ''cookie'' req;
          req = add_all body ''body'' req;
          req = add_all query ''query'' req;
          req = add_all params ''url'' req
      in req)"

section \<open>The adapter\<close>

text \<open>The names of the methods, and \<^verbatim>\<open>toLocaleUpperCase\<close> on them (root locale).\<close>

fun method_name :: "HTTPMethod \<Rightarrow> string" where
  "method_name HTTP_all = ''all''"
| "method_name HTTP_connect = ''connect''"
| "method_name HTTP_delete = ''delete''"
| "method_name HTTP_get = ''get''"
| "method_name HTTP_head = ''head''"
| "method_name HTTP_options = ''options''"
| "method_name HTTP_patch = ''patch''"
| "method_name HTTP_post = ''post''"
| "method_name HTTP_put = ''put''"
| "method_name HTTP_search = ''search''"
| "method_name HTTP_trace = ''trace''"

definition upper_char :: "char \<Rightarrow> char" where
  "upper_char c =
     (case map_of (zip ''abcdefghijklmnopqrstuvwxyz'' ''ABCDEFGHIJKLMNOPQRSTUVWXYZ'') c of
        Some u \<Rightarrow> u
      | None \<Rightarrow> c)"

definition toLocaleUpperCase :: "string \<Rightarrow> string" where
  "toLocaleUpperCase s = map upper_char s"

text \<open>
  \<^verbatim>\<open>s.trim()\<close>: white space and line ends go from both ends. A character of a string
  is a code unit below 256 here; of those, JavaScript counts tab, line feed, vertical tab,
  form feed, carriage return, space and the no-break space as white space or line ends.
\<close>

definition is_space :: "char \<Rightarrow> bool" where
  "is_space c =
     (c \<in> set [CHR 0x09, CHR 0x0A, CHR 0x0B, CHR 0x0C, CHR 0x0D, CHR '' '', CHR 0xA0])"

definition trim :: "string \<Rightarrow> string" where
  "trim s = rev (dropWhile is_space (rev (dropWhile is_space s)))"

text \<open>
  A route and a container are objects of the orchestrator; \<^verbatim>\<open>includes\<close> compares them by
  identity, which the model carries as a reference number. Of a route the adapter reads the
  url and the methods (one method or an array); \<^verbatim>\<open>container.allRoutes()\<close> hands out the
  routes of the container. What \<^verbatim>\<open>describeRoute\<close> prints with \<^verbatim>\<open>console.log\<close> is not part
  of the model.
\<close>

datatype route_methods =
    OneMethod HTTPMethod
  | MethodArray "HTTPMethod list"

record IProxiedRoute =
  route_ref :: nat
  route_url :: string
  route_methods :: route_methods

record Container =
  container_ref :: nat
  allRoutes :: "IProxiedRoute list"

text \<open>The \<^verbatim>\<open>Events\<close> enumeration, and an \<^verbatim>\<open>emit\<close> call with its arguments.\<close>

datatype Events =
    REQUEST
  | ALL_REQUEST | GET_REQUEST | POST_REQUEST | CONNECT_REQUEST | PUT_REQUEST
  | PATCH_REQUEST | DELETE_REQUEST | TRACE_REQUEST | HEAD_REQUEST | OPTIONS_REQUEST
  | REQUEST_ERROR | REQUEST_RESPONSE

datatype emit_call =
    EmitRoute Events nat
  | EmitRouteMethod Events nat HTTPMethod
  | EmitError Events js_error nat
  | EmitResponse Events IApiRouteResponse nat

text \<open>
  The Fastify instance, by the calls the adapter makes on it: \<^verbatim>\<open>register(plugin)\<close>, and
  \<^verbatim>\<open>route({method, url, handler})\<close>, where the handler closes over the route and the
  method it will pass to the request handler.
\<close>

datatype fastify_call =
    Register string
  | Route string string nat HTTPMethod

text \<open>
  The orchestrator's \<^verbatim>\<open>handle(route, request, onSuccess, onError)\<close>: it answers through one
  of the two callbacks.
\<close>

datatype handler_answer =
    Succeeds IApiRouteResponse
  | Fails js_error

text \<open>
  The adapter object: its containers, the boot flag, the loaded routes and the optional
  request handler, together with what it has done to its collaborators, oldest first: the
  calls the Fastify instance has taken, the events emitted, the warnings printed with
  \<^verbatim>\<open>console.warn\<close>. The port, the start flag and the server (\<^verbatim>\<open>onPort\<close>,
  \<^verbatim>\<open>start\<close>, \<^verbatim>\<open>stop\<close>) are left out, and the three replaceable functions are the
  default ones.
\<close>

record Adapter =
  containers :: "Container list"
  booted :: bool
  loadedRoutes :: "IProxiedRoute list"
  apiHandler :: "(IProxiedRoute \<Rightarrow> RouteRequest \<Rightarrow> handler_answer) option"
  fastify :: "fastify_call list"
  emitted :: "emit_call list"
  warned :: "string list"

definition new_Adapter :: Adapter where
  "new_Adapter =
     \<lparr>containers = [], booted = False, loadedRoutes = [], apiHandler = None,
      fastify = [], emitted = [], warned = []\<rparr>"

definition setRequestHandler ::
  "(IProxiedRoute \<Rightarrow> RouteRequest \<Rightarrow> handler_answer) \<Rightarrow> Adapter \<Rightarrow> Adapter" where
  "setRequestHandler handler ad = ad\<lparr>apiHandler := Some handler\<rparr>"

text \<open>
  A call on the Fastify instance is taken or refused by the library: it refuses a route
  under a method it does not support, or one that is bound already. Which calls it takes is
  the parameter \<open>accepts\<close> of the model: \<open>accepts history c\<close> says whether the instance
  that has taken the calls of \<open>history\<close> takes the call \<open>c\<close>. A call that is taken is
  recorded; a call that is refused raises and leaves no trace.
\<close>

type_synonym fastify_library = "fastify_call list \<Rightarrow> fastify_call \<Rightarrow> bool"

definition call_fastify :: "fastify_library \<Rightarrow> fastify_call \<Rightarrow> Adapter \<Rightarrow> Adapter \<times> completion" where
  "call_fastify accepts c ad =
     (if accepts (fastify ad) c then (ad\<lparr>fastify := fastify ad @ [c]\<rparr>, Normal)
      else (ad, Thrown FastifyError))"

text \<open>Two libraries for the examples: one that takes every call, one that refuses CONNECT.\<close>

definition accepts_every_call :: fastify_library where
  "accepts_every_call history c = True"

definition refuses_connect :: fastify_library where
  "refuses_connect history c =
     (case c of Register plugin \<Rightarrow> True | Route name url r m \<Rightarrow> name \<noteq> ''CONNECT'')"

text \<open>
  A \<^verbatim>\<open>for ... of\<close> loop whose body may raise: the exception ends the loop, and what the
  earlier rounds did stays done.
\<close>

fun for_each :: "('a \<Rightarrow> 's \<Rightarrow> 's \<times> completion) \<Rightarrow> 'a list \<Rightarrow> 's \<Rightarrow> 's \<times> completion" where
  "for_each body [] s = (s, Normal)"
| "for_each body (x # xs) s =
     (case body x s of
        (s', Normal) \<Rightarrow> for_each body xs s'
      | (s', Thrown e) \<Rightarrow> (s', Thrown e))"

text \<open>
  \<^verbatim>\<open>if (!this.containers.includes(container)) this.containers.push(container);\<close>
\<close>

definition addContainer :: "Container \<Rightarrow> Adapter \<Rightarrow> Adapter" where
  "addContainer container ad =
     (if container_ref container \<in> set (map container_ref (containers ad)) then ad
      else ad\<lparr>containers := containers ad @ [container]\<rparr>)"

text \<open>
  \<^verbatim>\<open>addRouteToHttpMethod\<close>:
  \<^verbatim>\<open>
  url = route.url.trim().charAt(0) !== '/' ? '/' + route.url.trim() : route.url.trim();
  if (['search', 'all'].includes(method)) { console.warn(...); method = 'post'; }
  this.fastify.route({ method: method.toLocaleUpperCase(), url, handler: ... });
  switch (method) { case 'get': this.emit(Events.GET_REQUEST, route); break; ... }
  this.emit(Events.REQUEST, route, method);
  \<close>
  When the library refuses the route, the exception leaves the function: the warning has
  been printed, nothing is bound and no event is emitted.
\<close>

definition route_binding_url :: "IProxiedRoute \<Rightarrow> string" where
  "route_binding_url route =
     (case trim (route_url route) of
        [] \<Rightarrow> ''/''
      | c # cs \<Rightarrow> (if c \<noteq> CHR ''/'' then CHR ''/'' # c # cs else c # cs))"

definition unsupported_warning :: "HTTPMethod \<Rightarrow> string" where
  "unsupported_warning method =
     ''Fastify adapter does not support '' @ [CHR 0x22]
     @ toLocaleUpperCase (method_name method) @ [CHR 0x22]
     @ '' HTTP verb, serving route as POST instead''"

fun method_event :: "HTTPMethod \<Rightarrow> Events option" where
  "method_event HTTP_all = Some ALL_REQUEST"
| "method_event HTTP_get = Some GET_REQUEST"
| "method_event HTTP_post = Some POST_REQUEST"
| "method_event HTTP_put = Some PUT_REQUEST"
| "method_event HTTP_patch = Some PATCH_REQUEST"
| "method_event HTTP_delete = Some DELETE_REQUEST"
| "method_event HTTP_head = Some HEAD_REQUEST"
| "method_event HTTP_options = Some OPTIONS_REQUEST"
| "method_event HTTP_connect = Some CONNECT_REQUEST"
| "method_event HTTP_trace = Some TRACE_REQUEST"
| "method_event HTTP_search = None"

definition addRouteToHttpMethod ::
  "fastify_library \<Rightarrow> HTTPMethod \<Rightarrow> IProxiedRoute \<Rightarrow> Adapter \<Rightarrow> Adapter \<times> completion" where
  "addRouteToHttpMethod accepts method0 route ad =
     (let url = route_binding_url route;
          unsupported = (method0 \<in> set [HTTP_search, HTTP_all]);
          ad = (if unsupported then ad\<lparr>warned := warned ad @ [unsupported_warning method0]\<rparr>
                else ad);
          method = (if unsupported then HTTP_post else method0)
      in case call_fastify accepts
                (Route (toLocaleUpperCase (method_name method)) url (route_ref route) method) ad of
           (ad, Thrown e) \<Rightarrow> (ad, Thrown e)
         | (ad, Normal) \<Rightarrow>
             (let ad = (case method_event method of
                          Some ev \<Rightarrow> ad\<lparr>emitted := emitted ad @ [EmitRoute ev (route_ref route)]\<rparr>
                        | None \<Rightarrow> ad)
              in (ad\<lparr>emitted := emitted ad @ [EmitRouteMethod REQUEST (route_ref route) method]\<rparr>,
                  Normal)))"

text \<open>
  \<^verbatim>\<open>loadRoutesFromContainers\<close>. For every route of every container, in order:
  \<^verbatim>\<open>
  if (this._loadedRoutes.includes(route)) continue;
  methods = Array.isArray(route.methods) ? route.methods : [route.methods];
  for (let method of methods) this.addRouteToHttpMethod(method, route);
  this._loadedRoutes.push(route);
  \<close>
  An exception of \<^verbatim>\<open>addRouteToHttpMethod\<close> ends all three loops: the route is not pushed
  and the routes after it are not visited.
\<close>

fun methods_of :: "route_methods \<Rightarrow> HTTPMethod list" where
  "methods_of (OneMethod m) = [m]"
| "methods_of (MethodArray ms) = ms"

definition loadRoute :: "fastify_library \<Rightarrow> IProxiedRoute \<Rightarrow> Adapter \<Rightarrow> Adapter \<times> completion" where
  "loadRoute accepts route ad =
     (if route_ref route \<in> set (map route_ref (loadedRoutes ad)) then (ad, Normal)
      else (case for_each (\<lambda>method a. addRouteToHttpMethod accepts method route a)
                   (methods_of (route_methods route)) ad of
              (ad, Thrown e) \<Rightarrow> (ad, Thrown e)
            | (ad, Normal) \<Rightarrow> (ad\<lparr>loadedRoutes := loadedRoutes ad @ [route]\<rparr>, Normal)))"

definition loadRoutesFromContainers ::
  "fastify_library \<Rightarrow> Container list \<Rightarrow> Adapter \<Rightarrow> Adapter \<times> completion" where
  "loadRoutesFromContainers accepts cs ad =
     for_each (\<lambda>container a. for_each (loadRoute accepts) (allRoutes container) a) cs ad"

text \<open>
  \<^verbatim>\<open>
  if (this._booted) return;
  this.fastify.register(fastifyCookie, { secret: '' });
  this.fastify.register(fastifyHelmet);
  this.fastify.register(fastifyMultipart);
  this.loadRoutesFromContainers(this.containers);
  this._booted = true;
  \<close>
  The flag is set last: when a call before it raises, the adapter stays unbooted.
\<close>

definition boot :: "fastify_library \<Rightarrow> Adapter \<Rightarrow> Adapter \<times> completion" where
  "boot accepts ad =
     (if booted ad then (ad, Normal)
      else (case for_each (call_fastify accepts)
                   [Register ''fastifyCookie'', Register ''fastifyHelmet'',
                    Register ''fastifyMultipart''] ad of
              (ad, Thrown e) \<Rightarrow> (ad, Thrown e)
            | (ad, Normal) \<Rightarrow>
                (case loadRoutesFromContainers accepts (containers ad) ad of
                   (ad, Thrown e) \<Rightarrow> (ad, Thrown e)
                 | (ad, Normal) \<Rightarrow> (ad\<lparr>booted := True\<rparr>, Normal))))"

text \<open>
  The calls of the adapter's interface that touch the list of loaded routes. In a sequence
  of calls the caller goes on after an exception, with the adapter as the failed call left
  it.
\<close>

datatype adapter_call =
    AddContainer Container
  | LoadRoutesFromContainers "Container list"
  | Boot

fun do_call :: "fastify_library \<Rightarrow> adapter_call \<Rightarrow> Adapter \<Rightarrow> Adapter \<times> completion" where
  "do_call accepts (AddContainer c) ad = (addContainer c ad, Normal)"
| "do_call accepts (LoadRoutesFromContainers cs) ad = loadRoutesFromContainers accepts cs ad"
| "do_call accepts Boot ad = boot accepts ad"

definition do_calls :: "fastify_library \<Rightarrow> adapter_call list \<Rightarrow> Adapter \<Rightarrow> Adapter" where
  "do_calls accepts calls ad = fold (\<lambda>c a. fst (do_call accepts c a)) calls ad"

subsection \<open>The request handler\<close>

text \<open>
  What handling one request leaves behind: the reply, how the promise returned to Fastify
  was settled (if it was), the events emitted, and the exception that ended the body of
  the promise, if one did.
\<close>

record request_run =
  run_reply :: FastifyReply
  run_promise :: "settle option"
  run_emitted :: "emit_call list"
  run_transformed :: "RouteRequest option"
  run_thrown :: "js_exception option"

text \<open>
  \<^verbatim>\<open>
  if (typeof this._apiHandler !== "function") {
    let error = new RequestFlowNotDefined(
      'Fastify adapter does not have an associated api request handler');
    this._errorHandler(response, error, resolve, reject);
    this.emit(Events.REQUEST_ERROR, error, route, request);
  }
  let apiRequest = await this._transformRequest(request, matchedPattern);
  apiRequest.method = method;
  this._apiHandler!(route, apiRequest,
    (routeResp) => { this._sendResponse(routeResp, response, resolve);
                     this.emit(Events.REQUEST_RESPONSE, routeResp, route); },
    (error) => { this._errorHandler(response, error, resolve, reject);
                 this.emit(Events.REQUEST_ERROR, error, route, request); });
  \<close>
  with the default \<^verbatim>\<open>TransformRequest\<close>, \<^verbatim>\<open>SendResponse\<close> and \<^verbatim>\<open>ErrorHandler\<close>
  installed. The first block has no \<^verbatim>\<open>return\<close>: with no handler set, control goes on to
  the transformation and to the call of \<^verbatim>\<open>this._apiHandler\<close>, which is \<^verbatim>\<open>undefined\<close>;
  calling it raises a TypeError. \<^verbatim>\<open>RequestFlowNotDefined\<close> is an error class of
  \<^verbatim>\<open>maestro\<close>; the object it constructs from the message is a parameter, as is the text
  of numbers that \<^verbatim>\<open>TransformRequest\<close> needs.
\<close>

definition no_handler_message :: string where
  "no_handler_message = ''Fastify adapter does not have an associated api request handler''"

definition requestHandler ::
  "(int \<Rightarrow> string) \<Rightarrow> (string \<Rightarrow> js_error) \<Rightarrow> Adapter \<Rightarrow> IProxiedRoute \<Rightarrow> HTTPMethod
     \<Rightarrow> FastifyRequest \<Rightarrow> string \<Rightarrow> FastifyReply \<Rightarrow> request_run" where
  "requestHandler number_text RequestFlowNotDefined ad route method request matchedPattern
     response =
     (let run = \<lparr>run_reply = response, run_promise = None, run_emitted = [],
                 run_transformed = None, run_thrown = None\<rparr>;
          run = (case apiHandler ad of
                   Some handle \<Rightarrow> run
                 | None \<Rightarrow>
                     (let error = RequestFlowNotDefined no_handler_message;
                          (response', s) = ErrorHandler response error
                      in run\<lparr>run_reply := response', run_promise := Some s,
                              run_emitted := [EmitError REQUEST_ERROR error (route_ref route)]\<rparr>));
          apiRequest = (TransformRequest number_text request)\<lparr>rr_method := Some method\<rparr>;
          run = run\<lparr>run_transformed := Some apiRequest\<rparr>
      in case apiHandler ad of
           None \<Rightarrow> run\<lparr>run_thrown := Some TypeError\<rparr>
         | Some handle \<Rightarrow>
             (case handle route apiRequest of
                Succeeds routeResp \<Rightarrow>
                  (case SendResponse routeResp (run_reply run) of
                     (response', Inr s) \<Rightarrow>
                       run\<lparr>run_reply := response', run_promise := Some s,
                           run_emitted := run_emitted run
                             @ [EmitResponse REQUEST_RESPONSE routeResp (route_ref route)]\<rparr>
                   | (response', Inl e) \<Rightarrow>
                       run\<lparr>run_reply := response', run_thrown := Some e\<rparr>)
              | Fails error \<Rightarrow>
                  (let (response', s) = ErrorHandler (run_reply run) error
                   in run\<lparr>run_reply := response', run_promise := Some s,
                           run_emitted := run_emitted run
                             @ [EmitError REQUEST_ERROR error (route_ref route)]\<rparr>)))"

section \<open>Properties of the error handler\<close>

lemma reply_status_append_Status [simp]:
  "reply_status (cs @ [Status s]) = Some s"
  by (induction cs) auto

lemma reply_header_append_Header [simp]:
  "reply_header (cs @ [Header n v]) n = Some v"
  by (induction cs) auto

lemma reply_header_append_Status [simp]:
  "reply_header (cs @ [Status s]) n = reply_header cs n"
  by (induction cs) (auto split: option.splits)

lemma ErrorPayload_shape:
  "\<exists>code. ErrorPayload error = JObj [(''exitCode'', JStr code), (''message'', err_message error)]"
  by (cases "err_exitCode error") (simp_all add: ErrorPayload_def)

text \<open>
  C1. For every error object: when its \<^verbatim>\<open>httpStatus\<close> is a number, the status of the
  reply is set to exactly that number and the promise is resolved with the structured
  payload (an exit code and the message); otherwise the status of the reply is set to 500
  and the promise is rejected with a payload that carries the message of the error
  unchanged.
\<close>

theorem ErrorHandler_status_and_payload:
  "(is_number (err_httpStatus error) \<longrightarrow>
      reply_status (fst (ErrorHandler response error)) = Some (err_httpStatus error)
      \<and> (\<exists>code. snd (ErrorHandler response error)
            = Resolve (JObj [(''exitCode'', JStr code), (''message'', err_message error)])))
   \<and> (\<not> is_number (err_httpStatus error) \<longrightarrow>
      reply_status (fst (ErrorHandler response error)) = Some (JNum 500)
      \<and> (\<exists>code. snd (ErrorHandler response error)
            = Reject (JObj [(''exitCode'', JStr code), (''message'', err_message error)])))"
  using ErrorPayload_shape [of error] by (auto simp: ErrorHandler_def)

theorem ErrorHandler_status_and_payload_witness:
  "is_number (JNum 404)
   \<and> reply_status (fst (ErrorHandler []
       \<lparr>err_message = JStr ''no such user'', err_exitCode = JStr ''NOT_FOUND'',
        err_httpStatus = JNum 404, instanceof_ApiError = True\<rparr>)) = Some (JNum 404)
   \<and> snd (ErrorHandler []
       \<lparr>err_message = JStr ''no such user'', err_exitCode = JStr ''NOT_FOUND'',
        err_httpStatus = JNum 404, instanceof_ApiError = True\<rparr>)
     = Resolve (JObj [(''exitCode'', JStr ''NOT_FOUND''), (''message'', JStr ''no such user'')])
   \<and> \<not> is_number JUndefined
   \<and> reply_status (fst (ErrorHandler []
       \<lparr>err_message = JStr ''boom'', err_exitCode = JUndefined,
        err_httpStatus = JUndefined, instanceof_ApiError = False\<rparr>)) = Some (JNum 500)
   \<and> snd (ErrorHandler []
       \<lparr>err_message = JStr ''boom'', err_exitCode = JUndefined,
        err_httpStatus = JUndefined, instanceof_ApiError = False\<rparr>)
     = Reject (JObj [(''exitCode'', JStr ''REQUEST_REFUSED''), (''message'', JStr ''boom'')])"
  using ErrorHandler_status_and_payload [of
      "\<lparr>err_message = JStr ''no such user'', err_exitCode = JStr ''NOT_FOUND'',
        err_httpStatus = JNum 404, instanceof_ApiError = True\<rparr>" "[]"]
    ErrorHandler_status_and_payload [of
      "\<lparr>err_message = JStr ''boom'', err_exitCode = JUndefined,
        err_httpStatus = JUndefined, instanceof_ApiError = False\<rparr>" "[]"]
  by (simp add: ErrorHandler_def ErrorPayload_def)

text \<open>
  The older variant decides by the class of the error, not by the type of its status: it
  answers an \<^verbatim>\<open>ApiError\<close> with the error's status and its message, sent and resolved,
  and every other error with 500 and the message, rejected.
\<close>

lemma ErrorHandler_auria_outcome:
  "reply_status (fst (ErrorHandler_auria response error))
     = Some (if instanceof_ApiError error then err_httpStatus error else JNum 500)
   \<and> snd (ErrorHandler_auria response error)
     = (if instanceof_ApiError error then Resolve (err_message error)
        else Reject (err_message error))"
proof -
  have "reply_status ((response @ [Status (err_httpStatus error)]) @ [Send (err_message error)])
          = Some (err_httpStatus error)"
    by (induction response) auto
  then show ?thesis by (simp add: ErrorHandler_auria_def)
qed

section \<open>Properties of command dispatch\<close>

text \<open>
  The two tests on the filter leave two ways to the command table: no filter, or the
  adapter's name as a single string. An array never passes the second test.
\<close>

lemma applyCommand_filter:
  "applyCommand response command =
     (if cmd_adapters command = NoFilter \<or> cmd_adapters command = OneAdapter ADAPTER_NAME
      then (case Commands (cmd_name command) of
              Some member \<Rightarrow> call_member member response (cmd_payload command)
            | None \<Rightarrow> (response, Normal))
      else (response, Normal))"
  by (cases "cmd_adapters command") (auto simp: applyCommand_def)

text \<open>
  C2. The claim fails on the code: a command whose filter is an array that contains the
  adapter's name is not applied. Every command built by \<^verbatim>\<open>Adapter.CreateCookie\<close> carries
  the filter \<^verbatim>\<open>[ADAPTER_NAME]\<close>, and dispatching it leaves the reply as it was.
\<close>

theorem CreateCookie_command_not_applied:
  "cmd_adapters (Adapter_CreateCookie name val options) = ManyAdapters [ADAPTER_NAME]
   \<and> applyCommandsToResponse response (Single (Adapter_CreateCookie name val options))
       = (response, Normal)"
  by (simp add: applyCommand_def Adapter_CreateCookie_def)

text \<open>The same command without its filter reaches the table and sets cookies.\<close>

lemma CreateCookie_command_unfiltered:
  "applyCommandsToResponse []
     (Single ((Adapter_CreateCookie ''sid'' ''abc'' [])\<lparr>cmd_adapters := NoFilter\<rparr>))
   = ([SetCookie ''name'' JUndefined (JStr ''sid''),
       SetCookie ''value'' JUndefined (JStr ''abc'')], Normal)"
  by (simp add: applyCommand_def Adapter_CreateCookie_def Commands_def create_cookie_def
      own_property_def)

text \<open>
  The payload of a built command lists an array index among the options first, keeps
  \<^verbatim>\<open>name\<close> and \<^verbatim>\<open>value\<close> in their places, also when an option overwrites them, and
  lists the other options after them.
\<close>

lemma CreateCookie_payload_order:
  "cmd_payload (Adapter_CreateCookie ''sid'' ''abc''
      [(''7'', JBool True), (''path'', JStr ''/''), (''name'', JStr ''other'')])
   = JObj [(''7'', JBool True), (''name'', JStr ''other''), (''value'', JStr ''abc''),
           (''path'', JStr ''/'')]"
  by (simp add: Adapter_CreateCookie_def array_index_def digits_value_def digit_of_def)

text \<open>
  C4. The claim fails on the code: the name \<^verbatim>\<open>__proto__\<close> is neither \<^verbatim>\<open>set-header\<close>
  nor \<^verbatim>\<open>create-cookie\<close>, yet a command of that name with no filter passes the
  \<^verbatim>\<open>!= null\<close> test and the call raises a TypeError.
\<close>

theorem proto_command_raises:
  "applyCommandsToResponse response
     (Single \<lparr>cmd_name = ''__proto__'', cmd_adapters = NoFilter, cmd_payload = payload\<rparr>)
   = (response, Thrown TypeError)"
  by (simp add: applyCommand_def Commands_def)

text \<open>A name that \<^verbatim>\<open>Commands\<close> does not resolve at all is ignored.\<close>

lemma unresolved_command_ignored:
  "Commands (cmd_name command) = None \<Longrightarrow> applyCommand response command = (response, Normal)"
  by (simp add: applyCommand_def)

lemma unresolved_command_names:
  "Commands name = None \<longleftrightarrow>
     name \<notin> set ([''set-header'', ''create-cookie'', ''__proto__''] @ Object_prototype_functions)"
  by (auto simp: Commands_def)

section \<open>Properties of SendResponse\<close>

text \<open>
  C8, as claimed, fails: a \<^verbatim>\<open>create-cookie\<close> command whose payload has a \<^verbatim>\<open>null\<close> entry
  raises a TypeError during dispatch; the promise is not resolved, and neither the header
  nor the status is set.
\<close>

theorem SendResponse_raises_counterexample:
  "SendResponse
     \<lparr>resp_payload = JStr ''done'',
      resp_commands = Some (Single \<lparr>cmd_name = ''create-cookie'', cmd_adapters = NoFilter,
                                      cmd_payload = JObj [(''sid'', JNull)]\<rparr>),
      resp_exitCode = JStr ''OK'', resp_status = JNum 200\<rparr> []
   = ([], Inl TypeError)"
  by (simp add: SendResponse_def applyCommand_def Commands_def create_cookie_def own_property_def)

text \<open>
  C8, amended. For every route response whose commands are absent or are dispatched without
  an exception: the promise is resolved with the payload when that is not \<^verbatim>\<open>null\<close> or
  \<^verbatim>\<open>undefined\<close> and with \<^verbatim>\<open>{}\<close> otherwise; the last two calls on the reply set the
  \<^verbatim>\<open>X-Exit-Code\<close> header to the exit code and the status to the status of the response.
\<close>

theorem SendResponse_resolves:
  assumes "(resp_commands routeResp = None \<and> response' = response)
     \<or> (\<exists>cs. resp_commands routeResp = Some cs
              \<and> applyCommandsToResponse response cs = (response', Normal))"
  shows "SendResponse routeResp response
           = (response' @ [Header ''X-Exit-Code'' (resp_exitCode routeResp),
                           Status (resp_status routeResp)],
              Inr (Resolve (if nullish (resp_payload routeResp) then JObj []
                            else resp_payload routeResp)))
         \<and> reply_header (fst (SendResponse routeResp response)) ''X-Exit-Code''
             = Some (resp_exitCode routeResp)
         \<and> reply_status (fst (SendResponse routeResp response)) = Some (resp_status routeResp)"
proof -
  have "(case resp_commands routeResp of
           Some cs \<Rightarrow> applyCommandsToResponse response cs
         | None \<Rightarrow> (response, Normal)) = (response', Normal)"
    using assms by auto
  then have eq: "SendResponse routeResp response
           = (response' @ [Header ''X-Exit-Code'' (resp_exitCode routeResp),
                           Status (resp_status routeResp)],
              Inr (Resolve (if nullish (resp_payload routeResp) then JObj []
                            else resp_payload routeResp)))"
    by (simp add: SendResponse_def coalesce_def)
  have h: "reply_header ((response' @ [Header ''X-Exit-Code'' (resp_exitCode routeResp)])
               @ [Status (resp_status routeResp)]) ''X-Exit-Code''
             = Some (resp_exitCode routeResp)"
    by (simp only: reply_header_append_Status reply_header_append_Header)
  have s: "reply_status ((response' @ [Header ''X-Exit-Code'' (resp_exitCode routeResp)])
               @ [Status (resp_status routeResp)]) = Some (resp_status routeResp)"
    by (simp only: reply_status_append_Status)
  from eq h s show ?thesis by simp
qed

theorem SendResponse_resolves_witness:
  "applyCommandsToResponse []
     (Several [Single \<lparr>cmd_name = ''set-header'', cmd_adapters = NoFilter,
                        cmd_payload = JObj [(''X-Powered-By'', JStr ''maestro'')]\<rparr>])
     = ([Header ''X-Powered-By'' (JStr ''maestro'')], Normal)
   \<and> SendResponse
     \<lparr>resp_payload = JNull,
      resp_commands = Some (Several [Single \<lparr>cmd_name = ''set-header'', cmd_adapters = NoFilter,
                                      cmd_payload = JObj [(''X-Powered-By'', JStr ''maestro'')]\<rparr>]),
      resp_exitCode = JStr ''OK'', resp_status = JNum 201\<rparr> []
   = ([Header ''X-Powered-By'' (JStr ''maestro''), Header ''X-Exit-Code'' (JStr ''OK''),
       Status (JNum 201)], Inr (Resolve (JObj [])))"
  using SendResponse_resolves [of
     "\<lparr>resp_payload = JNull,
      resp_commands = Some (Several [Single \<lparr>cmd_name = ''set-header'', cmd_adapters = NoFilter,
                                      cmd_payload = JObj [(''X-Powered-By'', JStr ''maestro'')]\<rparr>]),
      resp_exitCode = JStr ''OK'', resp_status = JNum 201\<rparr>"
     "[Header ''X-Powered-By'' (JStr ''maestro'')]" "[]"]
  by (simp add: applyCommand_def Commands_def set_header_def own_property_def)

section \<open>Properties of TransformRequest\<close>

lemma rr_added_add_all:
  "rr_added (add_all src origin req)
     = rr_added req @ map (\<lambda>(k, v). (k, v, origin)) (for_in_entries src)"
proof -
  have "rr_added (fold (\<lambda>(k, v) r. add k v origin r) es req)
          = rr_added req @ map (\<lambda>(k, v). (k, v, origin)) es" for es
    by (induction es arbitrary: req) (auto simp: add_def)
  then show ?thesis by (simp add: add_all_def)
qed

text \<open>The \<^verbatim>\<open>?? {}\<close> on body, query and params changes nothing for the loops.\<close>

lemma for_in_entries_coalesce:
  "for_in_entries (coalesce src (JObj [])) = for_in_entries src"
  by (cases src) (simp_all add: coalesce_def)

lemma rr_added_TransformRequest:
  "rr_added (TransformRequest number_text request)
     = map (\<lambda>(k, v). (k, v, ''header'')) (for_in_entries (JObj (req_headers request)))
       @ map (\<lambda>(k, v). (k, v, ''cookie'')) (for_in_entries (req_cookies request))
       @ map (\<lambda>(k, v). (k, v, ''body'')) (for_in_entries (req_body request))
       @ map (\<lambda>(k, v). (k, v, ''query'')) (for_in_entries (req_query request))
       @ map (\<lambda>(k, v). (k, v, ''url'')) (for_in_entries (req_params request))"
  by (simp add: TransformRequest_def Let_def rr_added_add_all for_in_entries_coalesce
      new_RouteRequest_def)

text \<open>On an object the loop visits exactly the properties.\<close>

lemma object_entries:
  "(k, v) \<in> set (for_in_entries (JObj kvs)) \<longleftrightarrow> map_of kvs k = Some v"
proof
  assume "(k, v) \<in> set (for_in_entries (JObj kvs))"
  then have "k \<in> fst ` set kvs" and v: "v = own_property kvs k"
    by auto
  then obtain w where "map_of kvs k = Some w"
    by (metis map_of_eq_None_iff not_Some_eq)
  with v show "map_of kvs k = Some v"
    by (simp add: own_property_def)
next
  assume m: "map_of kvs k = Some v"
  then have "k \<in> fst ` set kvs"
    by (metis map_of_eq_None_iff option.distinct(1))
  with m show "(k, v) \<in> set (for_in_entries (JObj kvs))"
    by (auto simp: own_property_def image_iff)
qed

text \<open>
  C3. Every key of the request's headers, cookies, body, query string and url parameters is
  added to the normalized request, under its origin and with the value it has on the
  native request.
\<close>

theorem TransformRequest_copies_every_key:
  "(map_of (req_headers request) k = Some v
      \<longrightarrow> (k, v, ''header'') \<in> set (rr_added (TransformRequest number_text request)))
   \<and> ((k, v) \<in> set (for_in_entries (req_cookies request))
      \<longrightarrow> (k, v, ''cookie'') \<in> set (rr_added (TransformRequest number_text request)))
   \<and> ((k, v) \<in> set (for_in_entries (req_body request))
      \<longrightarrow> (k, v, ''body'') \<in> set (rr_added (TransformRequest number_text request)))
   \<and> ((k, v) \<in> set (for_in_entries (req_query request))
      \<longrightarrow> (k, v, ''query'') \<in> set (rr_added (TransformRequest number_text request)))
   \<and> ((k, v) \<in> set (for_in_entries (req_params request))
      \<longrightarrow> (k, v, ''url'') \<in> set (rr_added (TransformRequest number_text request)))"
  using object_entries [of k v "req_headers request"]
  by (auto simp: rr_added_TransformRequest simp del: for_in_entries.simps)

theorem TransformRequest_copies_every_key_witness:
  "(''host'', JStr ''example.org'', ''header'') \<in> set (rr_added (TransformRequest show_int
      \<lparr>req_url = ''/users/7?id=8'', req_ips = None, req_ip = ''10.0.0.1'',
       req_headers = [(''host'', JStr ''example.org''), (''id'', JStr ''h'')],
       req_cookies = JObj [(''sid'', JStr ''c'')],
       req_body = JObj [(''name'', JStr ''Ann'')],
       req_query = JObj [(''id'', JStr ''8'')],
       req_params = JObj [(''id'', JStr ''7'')]\<rparr>))
   \<and> (''sid'', JStr ''c'', ''cookie'') \<in> set (rr_added (TransformRequest show_int
      \<lparr>req_url = ''/users/7?id=8'', req_ips = None, req_ip = ''10.0.0.1'',
       req_headers = [(''host'', JStr ''example.org''), (''id'', JStr ''h'')],
       req_cookies = JObj [(''sid'', JStr ''c'')],
       req_body = JObj [(''name'', JStr ''Ann'')],
       req_query = JObj [(''id'', JStr ''8'')],
       req_params = JObj [(''id'', JStr ''7'')]\<rparr>))
   \<and> (''name'', JStr ''Ann'', ''body'') \<in> set (rr_added (TransformRequest show_int
      \<lparr>req_url = ''/users/7?id=8'', req_ips = None, req_ip = ''10.0.0.1'',
       req_headers = [(''host'', JStr ''example.org''), (''id'', JStr ''h'')],
       req_cookies = JObj [(''sid'', JStr ''c'')],
       req_body = JObj [(''name'', JStr ''Ann'')],
       req_query = JObj [(''id'', JStr ''8'')],
       req_params = JObj [(''id'', JStr ''7'')]\<rparr>))
   \<and> (''id'', JStr ''8'', ''query'') \<in> set (rr_added (TransformRequest show_int
      \<lparr>req_url = ''/users/7?id=8'', req_ips = None, req_ip = ''10.0.0.1'',
       req_headers = [(''host'', JStr ''example.org''), (''id'', JStr ''h'')],
       req_cookies = JObj [(''sid'', JStr ''c'')],
       req_body = JObj [(''name'', JStr ''Ann'')],
       req_query = JObj [(''id'', JStr ''8'')],
       req_params = JObj [(''id'', JStr ''7'')]\<rparr>))
   \<and> (''id'', JStr ''7'', ''url'') \<in> set (rr_added (TransformRequest show_int
      \<lparr>req_url = ''/users/7?id=8'', req_ips = None, req_ip = ''10.0.0.1'',
       req_headers = [(''host'', JStr ''example.org''), (''id'', JStr ''h'')],
       req_cookies = JObj [(''sid'', JStr ''c'')],
       req_body = JObj [(''name'', JStr ''Ann'')],
       req_query = JObj [(''id'', JStr ''8'')],
       req_params = JObj [(''id'', JStr ''7'')]\<rparr>))"
proof -
  let ?rq = "\<lparr>req_url = ''/users/7?id=8'', req_ips = None, req_ip = ''10.0.0.1'',
       req_headers = [(''host'', JStr ''example.org''), (''id'', JStr ''h'')],
       req_cookies = JObj [(''sid'', JStr ''c'')],
       req_body = JObj [(''name'', JStr ''Ann'')],
       req_query = JObj [(''id'', JStr ''8'')],
       req_params = JObj [(''id'', JStr ''7'')]\<rparr>"
  have h: "map_of (req_headers ?rq) ''host'' = Some (JStr ''example.org'')"
    by simp
  have c: "(''sid'', JStr ''c'') \<in> set (for_in_entries (req_cookies ?rq))"
    by (simp add: own_property_def)
  have b: "(''name'', JStr ''Ann'') \<in> set (for_in_entries (req_body ?rq))"
    by (simp add: own_property_def)
  have q: "(''id'', JStr ''8'') \<in> set (for_in_entries (req_query ?rq))"
    by (simp add: own_property_def)
  have u: "(''id'', JStr ''7'') \<in> set (for_in_entries (req_params ?rq))"
    by (simp add: own_property_def)
  note T = TransformRequest_copies_every_key
  have 1: "(''host'', JStr ''example.org'', ''header'') \<in> set (rr_added (TransformRequest show_int ?rq))"
    by (rule mp [OF T [where request = ?rq and number_text = show_int and k = "''host''" and v = "JStr ''example.org''", THEN conjunct1] h])
  have 2: "(''sid'', JStr ''c'', ''cookie'') \<in> set (rr_added (TransformRequest show_int ?rq))"
    by (rule mp [OF T [where request = ?rq and number_text = show_int and k = "''sid''" and v = "JStr ''c''", THEN conjunct2, THEN conjunct1] c])
  have 3: "(''name'', JStr ''Ann'', ''body'') \<in> set (rr_added (TransformRequest show_int ?rq))"
    by (rule mp [OF T [where request = ?rq and number_text = show_int and k = "''name''" and v = "JStr ''Ann''", THEN conjunct2, THEN conjunct2,
          THEN conjunct1] b])
  have 4: "(''id'', JStr ''8'', ''query'') \<in> set (rr_added (TransformRequest show_int ?rq))"
    by (rule mp [OF T [where request = ?rq and number_text = show_int and k = "''id''" and v = "JStr ''8''", THEN conjunct2, THEN conjunct2,
          THEN conjunct2, THEN conjunct1] q])
  have 5: "(''id'', JStr ''7'', ''url'') \<in> set (rr_added (TransformRequest show_int ?rq))"
    by (rule mp [OF T [where request = ?rq and number_text = show_int and k = "''id''" and v = "JStr ''7''", THEN conjunct2, THEN conjunct2,
          THEN conjunct2, THEN conjunct2] u])
  from 1 2 3 4 5 show ?thesis by (intro conjI)
qed

lemma fold_update_map_of:
  "fold (\<lambda>(name, v, origin) m. m(name \<mapsto> v)) xs m0
     = m0 ++ map_of (rev (map (\<lambda>(name, v, origin). (name, v)) xs))"
  by (induction xs arbitrary: m0) (auto simp: map_add_def fun_eq_iff split: option.splits)

lemma parameters_map_of:
  "parameters req = map_of (rev (map (\<lambda>(name, v, origin). (name, v)) (rr_added req)))"
  by (simp add: parameters_def fold_update_map_of)

lemma drop_origin:
  "map ((\<lambda>(name, v, origin). (name, v)) \<circ> (\<lambda>(k, v). (k, v, origin))) es = es"
  by (induction es) auto

lemma copied_entries:
  "map (\<lambda>(name, v, origin). (name, v)) (rr_added (TransformRequest number_text request))
     = for_in_entries (JObj (req_headers request))
       @ for_in_entries (req_cookies request)
       @ for_in_entries (req_body request)
       @ for_in_entries (req_query request)
       @ for_in_entries (req_params request)"
  by (simp add: rr_added_TransformRequest drop_origin del: for_in_entries.simps)

lemma map_of_rev_append:
  "map_of (rev (xs @ ys)) k
     = (case map_of (rev ys) k of Some v \<Rightarrow> Some v | None \<Rightarrow> map_of (rev xs) k)"
  by (simp add: map_add_def)

lemma source_value_object: "source_value (JObj kvs) k = map_of kvs k"
proof (cases "map_of kvs k")
  case None
  then have "k \<notin> fst ` set (for_in_entries (JObj kvs))"
    by (auto simp: map_of_eq_None_iff image_iff)
  then have "map_of (rev (for_in_entries (JObj kvs))) k = None"
    by (simp add: map_of_eq_None_iff del: for_in_entries.simps)
  with None show ?thesis by (simp add: source_value_def)
next
  case (Some v)
  have "\<And>w. (k, w) \<in> set (rev (for_in_entries (JObj kvs))) \<Longrightarrow> w = v"
    using Some by (auto simp: own_property_def)
  moreover have "(k, v) \<in> set (rev (for_in_entries (JObj kvs)))"
    using Some object_entries [of k v kvs] by simp
  ultimately have "map_of (rev (for_in_entries (JObj kvs))) k = Some v"
    by (metis map_of_SomeD weak_map_of_SomeI)
  with Some show ?thesis by (simp add: source_value_def)
qed

text \<open>
  C6. In the mapping keyed by parameter name, a name holds the value of the last source
  that has it, in the copy order header, cookie, body, query, url: the url parameter if
  there is one, else the query parameter, else the body's, else the cookie, else the
  header.
\<close>

theorem parameters_last_write_wins:
  "parameters (TransformRequest number_text request) k =
     (case source_value (req_params request) k of Some v \<Rightarrow> Some v | None \<Rightarrow>
      (case source_value (req_query request) k of Some v \<Rightarrow> Some v | None \<Rightarrow>
       (case source_value (req_body request) k of Some v \<Rightarrow> Some v | None \<Rightarrow>
        (case source_value (req_cookies request) k of Some v \<Rightarrow> Some v | None \<Rightarrow>
         source_value (JObj (req_headers request)) k))))"
proof -
  let ?h = "for_in_entries (JObj (req_headers request))"
  let ?c = "for_in_entries (req_cookies request)"
  let ?b = "for_in_entries (req_body request)"
  let ?q = "for_in_entries (req_query request)"
  let ?u = "for_in_entries (req_params request)"
  have "parameters (TransformRequest number_text request) k = map_of (rev ((((?h @ ?c) @ ?b) @ ?q) @ ?u)) k"
    by (simp only: parameters_map_of copied_entries append_assoc)
  also have "\<dots> = (case map_of (rev ?u) k of Some v \<Rightarrow> Some v | None \<Rightarrow>
      (case map_of (rev ?q) k of Some v \<Rightarrow> Some v | None \<Rightarrow>
       (case map_of (rev ?b) k of Some v \<Rightarrow> Some v | None \<Rightarrow>
        (case map_of (rev ?c) k of Some v \<Rightarrow> Some v | None \<Rightarrow> map_of (rev ?h) k))))"
    by (simp only: map_of_rev_append)
  finally show ?thesis
    by (simp only: source_value_def)
qed

text \<open>A name in three sources: the url parameter wins over the query and the header.\<close>

theorem parameters_last_write_wins_witness:
  "parameters (TransformRequest show_int
      \<lparr>req_url = ''/users/7?id=8'', req_ips = None, req_ip = ''10.0.0.1'',
       req_headers = [(''host'', JStr ''example.org''), (''id'', JStr ''h'')],
       req_cookies = JUndefined, req_body = JNull,
       req_query = JObj [(''id'', JStr ''8''), (''page'', JStr ''2'')],
       req_params = JObj [(''id'', JStr ''7'')]\<rparr>) ''id'' = Some (JStr ''7'')"
  by (simp add: parameters_last_write_wins source_value_object)

section \<open>Properties of the request handler\<close>

text \<open>
  C5. With no request handler set, the error is reported through \<^verbatim>\<open>ErrorHandler\<close> and
  the \<^verbatim>\<open>request_error\<close> event is emitted. The claim that nothing else happens fails on
  the code: the request is transformed all the same, and the call of the missing handler
  raises a TypeError.
\<close>

theorem requestHandler_without_handler:
  "run_reply (requestHandler number_text RequestFlowNotDefined (ad\<lparr>apiHandler := None\<rparr>) route m request
       matchedPattern response)
       = fst (ErrorHandler response (RequestFlowNotDefined no_handler_message))
   \<and> run_promise (requestHandler number_text RequestFlowNotDefined (ad\<lparr>apiHandler := None\<rparr>) route m
       request matchedPattern response)
       = Some (snd (ErrorHandler response (RequestFlowNotDefined no_handler_message)))
   \<and> run_emitted (requestHandler number_text RequestFlowNotDefined (ad\<lparr>apiHandler := None\<rparr>) route m
       request matchedPattern response)
       = [EmitError REQUEST_ERROR (RequestFlowNotDefined no_handler_message) (route_ref route)]
   \<and> run_transformed (requestHandler number_text RequestFlowNotDefined (ad\<lparr>apiHandler := None\<rparr>) route m
       request matchedPattern response) = Some ((TransformRequest number_text request)\<lparr>rr_method := Some m\<rparr>)
   \<and> run_thrown (requestHandler number_text RequestFlowNotDefined (ad\<lparr>apiHandler := None\<rparr>) route m request
       matchedPattern response) = Some TypeError"
  by (simp add: requestHandler_def Let_def split: prod.splits)

text \<open>With a handler set, nothing is raised unless sending the response raises.\<close>

lemma requestHandler_with_handler:
  "apiHandler ad = Some handle \<Longrightarrow>
   run_thrown (requestHandler number_text RequestFlowNotDefined ad route m request matchedPattern response)
     = (case handle route ((TransformRequest number_text request)\<lparr>rr_method := Some m\<rparr>) of
          Succeeds routeResp \<Rightarrow>
            (case snd (SendResponse routeResp response) of Inl e \<Rightarrow> Some e | Inr s \<Rightarrow> None)
        | Fails error \<Rightarrow> None)"
  by (simp add: requestHandler_def Let_def split: prod.splits handler_answer.splits sum.splits)

section \<open>Properties of route loading and boot\<close>

text \<open>What every round of a loop keeps, the loop keeps, raised exception or not.\<close>

lemma for_each_preserves:
  assumes "\<And>x s. P s \<Longrightarrow> P (fst (body x s))" and "P s"
  shows "P (fst (for_each body xs s))"
  using assms(2)
proof (induction xs arbitrary: s)
  case Nil
  then show ?case by simp
next
  case (Cons x xs)
  obtain s' c where b: "body x s = (s', c)" by (cases "body x s")
  have "P s'" using assms(1) [OF Cons.prems, of x] b by simp
  then show ?case using Cons.IH [of s'] b by (cases c) auto
qed

lemma for_each_unchanged:
  assumes "\<And>x s. g (fst (body x s)) = g s"
  shows "g (fst (for_each body xs s)) = g s"
  using for_each_preserves [of "\<lambda>t. g t = g s" body s xs] assms by simp

lemma for_each_extends:
  assumes "\<And>x s. \<exists>extra. f (fst (body x s)) = f s @ extra"
  shows "\<exists>extra. f (fst (for_each body xs s)) = f s @ extra"
proof -
  have "\<And>x t. (\<exists>e. f t = f s @ e) \<Longrightarrow> (\<exists>e. f (fst (body x t)) = f s @ e)"
  proof -
    fix x t assume "\<exists>e. f t = f s @ e"
    then obtain e where e: "f t = f s @ e" by blast
    obtain e' where "f (fst (body x t)) = f t @ e'" using assms by blast
    with e have "f (fst (body x t)) = f s @ (e @ e')" by simp
    then show "\<exists>e. f (fst (body x t)) = f s @ e" by blast
  qed
  then show ?thesis
    using for_each_preserves [of "\<lambda>t. \<exists>e. f t = f s @ e" body s xs] by simp
qed

lemma call_fastify_fields [simp]:
  "loadedRoutes (fst (call_fastify accepts c ad)) = loadedRoutes ad"
  "booted (fst (call_fastify accepts c ad)) = booted ad"
  "containers (fst (call_fastify accepts c ad)) = containers ad"
  by (simp_all add: call_fastify_def)

lemma addRoute_fields [simp]:
  "loadedRoutes (fst (addRouteToHttpMethod accepts m r ad)) = loadedRoutes ad"
  "booted (fst (addRouteToHttpMethod accepts m r ad)) = booted ad"
  "containers (fst (addRouteToHttpMethod accepts m r ad)) = containers ad"
  by (simp_all add: addRouteToHttpMethod_def call_fastify_def Let_def split: option.splits)

lemma addRoutes_fields [simp]:
  "loadedRoutes (fst (for_each (\<lambda>m a. addRouteToHttpMethod accepts m r a) ms ad)) = loadedRoutes ad"
  "booted (fst (for_each (\<lambda>m a. addRouteToHttpMethod accepts m r a) ms ad)) = booted ad"
  "containers (fst (for_each (\<lambda>m a. addRouteToHttpMethod accepts m r a) ms ad)) = containers ad"
  by (rule for_each_unchanged, simp)+

lemma loadRoute_loadedRoutes:
  "loadedRoutes (fst (loadRoute accepts r ad)) = loadedRoutes ad
   \<or> (route_ref r \<notin> route_ref ` set (loadedRoutes ad)
       \<and> snd (loadRoute accepts r ad) = Normal
       \<and> loadedRoutes (fst (loadRoute accepts r ad)) = loadedRoutes ad @ [r])"
proof (cases "route_ref r \<in> route_ref ` set (loadedRoutes ad)")
  case True
  then show ?thesis by (simp add: loadRoute_def)
next
  case False
  obtain a c where f: "for_each (\<lambda>m a. addRouteToHttpMethod accepts m r a)
      (methods_of (route_methods r)) ad = (a, c)"
    by (cases "for_each (\<lambda>m a. addRouteToHttpMethod accepts m r a) (methods_of (route_methods r)) ad")
  have "loadedRoutes a = loadedRoutes ad"
    using addRoutes_fields(1) [of accepts r "methods_of (route_methods r)" ad] f by simp
  with False f show ?thesis by (cases c) (simp_all add: loadRoute_def)
qed

lemma loadRoute_booted [simp]: "booted (fst (loadRoute accepts r ad)) = booted ad"
proof -
  obtain a c where f: "for_each (\<lambda>m a. addRouteToHttpMethod accepts m r a)
      (methods_of (route_methods r)) ad = (a, c)"
    by (cases "for_each (\<lambda>m a. addRouteToHttpMethod accepts m r a) (methods_of (route_methods r)) ad")
  have "booted a = booted ad"
    using addRoutes_fields(2) [of accepts r "methods_of (route_methods r)" ad] f by simp
  with f show ?thesis by (cases c) (simp_all add: loadRoute_def)
qed

lemma loadRoute_loaded_id:
  "route_ref r \<in> route_ref ` set (loadedRoutes ad) \<Longrightarrow> loadRoute accepts r ad = (ad, Normal)"
  by (simp add: loadRoute_def)

lemma loadRoute_distinct:
  "distinct (map route_ref (loadedRoutes ad)) \<Longrightarrow>
   distinct (map route_ref (loadedRoutes (fst (loadRoute accepts r ad))))"
  using loadRoute_loadedRoutes [of accepts r ad] by auto

lemma loadRoute_extends:
  "\<exists>extra. loadedRoutes (fst (loadRoute accepts r ad)) = loadedRoutes ad @ extra"
  using loadRoute_loadedRoutes [of accepts r ad] by auto

lemma loadRoute_Normal_loaded:
  "snd (loadRoute accepts r ad) = Normal \<Longrightarrow>
   route_ref r \<in> route_ref ` set (loadedRoutes (fst (loadRoute accepts r ad)))"
proof (cases "route_ref r \<in> route_ref ` set (loadedRoutes ad)")
  case True
  then show ?thesis by (simp add: loadRoute_def)
next
  case False
  assume n: "snd (loadRoute accepts r ad) = Normal"
  obtain a c where f: "for_each (\<lambda>m a. addRouteToHttpMethod accepts m r a)
      (methods_of (route_methods r)) ad = (a, c)"
    by (cases "for_each (\<lambda>m a. addRouteToHttpMethod accepts m r a) (methods_of (route_methods r)) ad")
  with False n show ?thesis by (cases c) (simp_all add: loadRoute_def)
qed

lemma loadRoutes_distinct:
  "distinct (map route_ref (loadedRoutes ad)) \<Longrightarrow>
   distinct (map route_ref (loadedRoutes (fst (for_each (loadRoute accepts) rs ad))))"
  by (rule for_each_preserves [of "\<lambda>a. distinct (map route_ref (loadedRoutes a))"])
     (auto intro: loadRoute_distinct)

lemma loadRoutes_extends:
  "\<exists>extra. loadedRoutes (fst (for_each (loadRoute accepts) rs ad)) = loadedRoutes ad @ extra"
  by (rule for_each_extends) (rule loadRoute_extends)

lemma loadRoutes_booted [simp]:
  "booted (fst (for_each (loadRoute accepts) rs ad)) = booted ad"
  by (rule for_each_unchanged) simp

lemma loadRoutes_Normal_loaded:
  "snd (for_each (loadRoute accepts) rs ad) = Normal \<Longrightarrow>
   route_ref ` set rs \<union> route_ref ` set (loadedRoutes ad)
     \<subseteq> route_ref ` set (loadedRoutes (fst (for_each (loadRoute accepts) rs ad)))"
proof (induction rs arbitrary: ad)
  case Nil
  then show ?case by simp
next
  case (Cons r rs)
  obtain a c where l: "loadRoute accepts r ad = (a, c)" by (cases "loadRoute accepts r ad")
  with Cons.prems have c: "c = Normal" by (cases c) auto
  with l Cons.prems have n: "snd (for_each (loadRoute accepts) rs a) = Normal" by simp
  define A where "A = route_ref ` set (loadedRoutes ad)"
  define B where "B = route_ref ` set (loadedRoutes a)"
  define F where "F = route_ref ` set (loadedRoutes (fst (for_each (loadRoute accepts) rs a)))"
  have 1: "route_ref r \<in> B"
    using loadRoute_Normal_loaded [of accepts r ad] l c by (simp add: B_def)
  obtain e where "loadedRoutes a = loadedRoutes ad @ e"
    using loadRoute_extends [of accepts r ad] l by auto
  then have 2: "A \<subseteq> B" by (auto simp: A_def B_def)
  have 3: "route_ref ` set rs \<union> B \<subseteq> F"
    using Cons.IH [OF n] by (simp add: B_def F_def)
  have fin: "fst (for_each (loadRoute accepts) (r # rs) ad) = fst (for_each (loadRoute accepts) rs a)"
    using l c by simp
  have "insert (route_ref r) (route_ref ` set rs) \<union> A \<subseteq> F"
    using 1 2 3 by blast
  then show ?case unfolding fin by (simp add: A_def F_def)
qed

lemma loadRoutes_loaded_id:
  "route_ref ` set rs \<subseteq> route_ref ` set (loadedRoutes ad) \<Longrightarrow>
   for_each (loadRoute accepts) rs ad = (ad, Normal)"
  by (induction rs arbitrary: ad) (auto simp: loadRoute_loaded_id)

lemma load_distinct:
  "distinct (map route_ref (loadedRoutes ad)) \<Longrightarrow>
   distinct (map route_ref (loadedRoutes (fst (loadRoutesFromContainers accepts cs ad))))"
  unfolding loadRoutesFromContainers_def
  by (rule for_each_preserves [of "\<lambda>a. distinct (map route_ref (loadedRoutes a))"])
     (auto intro: loadRoutes_distinct)

lemma load_extends:
  "\<exists>extra. loadedRoutes (fst (loadRoutesFromContainers accepts cs ad)) = loadedRoutes ad @ extra"
  unfolding loadRoutesFromContainers_def
  by (rule for_each_extends) (rule loadRoutes_extends)

lemma load_booted [simp]: "booted (fst (loadRoutesFromContainers accepts cs ad)) = booted ad"
  unfolding loadRoutesFromContainers_def
  by (rule for_each_unchanged) simp

lemma load_Normal_loaded:
  "snd (loadRoutesFromContainers accepts cs ad) = Normal \<Longrightarrow>
   (\<Union>c \<in> set cs. route_ref ` set (allRoutes c)) \<union> route_ref ` set (loadedRoutes ad)
     \<subseteq> route_ref ` set (loadedRoutes (fst (loadRoutesFromContainers accepts cs ad)))"
  unfolding loadRoutesFromContainers_def
proof (induction cs arbitrary: ad)
  case Nil
  then show ?case by simp
next
  case (Cons c cs)
  let ?body = "\<lambda>container a. for_each (loadRoute accepts) (allRoutes container) a"
  obtain a k where l: "for_each (loadRoute accepts) (allRoutes c) ad = (a, k)"
    by (cases "for_each (loadRoute accepts) (allRoutes c) ad")
  with Cons.prems have k: "k = Normal" by (cases k) auto
  with l Cons.prems have n: "snd (for_each ?body cs a) = Normal" by simp
  define A where "A = route_ref ` set (loadedRoutes ad)"
  define B where "B = route_ref ` set (loadedRoutes a)"
  define C where "C = (\<Union>c \<in> set cs. route_ref ` set (allRoutes c))"
  define F where "F = route_ref ` set (loadedRoutes (fst (for_each ?body cs a)))"
  have 1: "route_ref ` set (allRoutes c) \<union> A \<subseteq> B"
    using loadRoutes_Normal_loaded [of accepts "allRoutes c" ad] l k by (simp add: A_def B_def)
  have 2: "C \<union> B \<subseteq> F"
    using Cons.IH [OF n] by (simp add: B_def C_def F_def)
  have fin: "fst (for_each ?body (c # cs) ad) = fst (for_each ?body cs a)"
    using l k by simp
  have "(route_ref ` set (allRoutes c) \<union> C) \<union> A \<subseteq> F"
    using 1 2 by blast
  then show ?case unfolding fin by (simp add: A_def C_def F_def)
qed

lemma load_loaded_id:
  "(\<Union>c \<in> set cs. route_ref ` set (allRoutes c)) \<subseteq> route_ref ` set (loadedRoutes ad)
   \<Longrightarrow> loadRoutesFromContainers accepts cs ad = (ad, Normal)"
  unfolding loadRoutesFromContainers_def
  by (induction cs arbitrary: ad) (auto simp: loadRoutes_loaded_id)

lemma reload_id:
  assumes "snd (loadRoutesFromContainers accepts cs ad) = Normal"
  shows "loadRoutesFromContainers accepts cs (fst (loadRoutesFromContainers accepts cs ad))
           = (fst (loadRoutesFromContainers accepts cs ad), Normal)"
  using load_Normal_loaded [OF assms] by (intro load_loaded_id) auto

text \<open>With a library that takes every call, nothing raises.\<close>

lemma call_fastify_every [simp]:
  "call_fastify accepts_every_call c ad = (ad\<lparr>fastify := fastify ad @ [c]\<rparr>, Normal)"
  by (simp add: call_fastify_def accepts_every_call_def)

lemma for_each_Normal:
  assumes "\<And>x s. snd (body x s) = Normal"
  shows "snd (for_each body xs s) = Normal"
proof (induction xs arbitrary: s)
  case Nil
  then show ?case by simp
next
  case (Cons x xs)
  obtain s' c where b: "body x s = (s', c)" by (cases "body x s")
  with assms [of x s] have "c = Normal" by simp
  with b Cons.IH [of s'] show ?case by simp
qed

lemma addRoute_every_Normal:
  "snd (addRouteToHttpMethod accepts_every_call m r ad) = Normal"
  by (simp add: addRouteToHttpMethod_def Let_def)

lemma loadRoute_every_Normal: "snd (loadRoute accepts_every_call r ad) = Normal"
proof -
  have "snd (for_each (\<lambda>m a. addRouteToHttpMethod accepts_every_call m r a)
               (methods_of (route_methods r)) ad) = Normal"
    by (rule for_each_Normal) (rule addRoute_every_Normal)
  then show ?thesis
    by (cases "for_each (\<lambda>m a. addRouteToHttpMethod accepts_every_call m r a)
               (methods_of (route_methods r)) ad") (simp add: loadRoute_def)
qed

lemma load_every_Normal: "snd (loadRoutesFromContainers accepts_every_call cs ad) = Normal"
  unfolding loadRoutesFromContainers_def
  by (intro for_each_Normal loadRoute_every_Normal)

lemma boot_fields:
  "\<exists>extra. loadedRoutes (fst (boot accepts ad)) = loadedRoutes ad @ extra"
  "distinct (map route_ref (loadedRoutes ad)) \<Longrightarrow>
     distinct (map route_ref (loadedRoutes (fst (boot accepts ad))))"
  "booted ad \<Longrightarrow> booted (fst (boot accepts ad))"
proof -
  let ?regs = "[Register ''fastifyCookie'', Register ''fastifyHelmet'', Register ''fastifyMultipart'']"
  obtain a c where r: "for_each (call_fastify accepts) ?regs ad = (a, c)"
    by (cases "for_each (call_fastify accepts) ?regs ad")
  have la: "loadedRoutes a = loadedRoutes ad"
    using for_each_unchanged [of loadedRoutes "call_fastify accepts" ?regs ad] r by simp
  obtain b k where l: "loadRoutesFromContainers accepts (containers a) a = (b, k)"
    by (cases "loadRoutesFromContainers accepts (containers a) a")
  obtain e where e: "loadedRoutes b = loadedRoutes a @ e"
    using load_extends [of accepts "containers a" a] l by auto
  have d: "distinct (map route_ref (loadedRoutes a)) \<Longrightarrow> distinct (map route_ref (loadedRoutes b))"
    using load_distinct [of a accepts "containers a"] l by simp
  have res: "loadedRoutes (fst (boot accepts ad)) = loadedRoutes ad
             \<or> loadedRoutes (fst (boot accepts ad)) = loadedRoutes b"
    using r l la by (cases c; cases k) (auto simp: boot_def)
  from res e la show "\<exists>extra. loadedRoutes (fst (boot accepts ad)) = loadedRoutes ad @ extra"
    by auto
  from res d la show "distinct (map route_ref (loadedRoutes ad)) \<Longrightarrow>
     distinct (map route_ref (loadedRoutes (fst (boot accepts ad))))"
    by auto
  show "booted ad \<Longrightarrow> booted (fst (boot accepts ad))"
    by (simp add: boot_def)
qed

lemma do_call_distinct:
  "distinct (map route_ref (loadedRoutes ad)) \<Longrightarrow>
   distinct (map route_ref (loadedRoutes (fst (do_call accepts c ad))))"
  by (cases c) (auto simp: addContainer_def intro: load_distinct boot_fields(2))

lemma do_call_extends:
  "\<exists>extra. loadedRoutes (fst (do_call accepts c ad)) = loadedRoutes ad @ extra"
  by (cases c) (auto simp: addContainer_def intro: load_extends boot_fields(1))

lemma do_call_booted: "booted ad \<Longrightarrow> booted (fst (do_call accepts c ad))"
  by (cases c) (auto simp: addContainer_def intro: boot_fields(3))

lemma do_calls_distinct:
  "distinct (map route_ref (loadedRoutes ad)) \<Longrightarrow>
   distinct (map route_ref (loadedRoutes (do_calls accepts calls ad)))"
  unfolding do_calls_def
  by (induction calls arbitrary: ad) (auto intro: do_call_distinct)

lemma do_calls_extends:
  "\<exists>extra. loadedRoutes (do_calls accepts calls ad) = loadedRoutes ad @ extra"
  unfolding do_calls_def
proof (induction calls arbitrary: ad)
  case Nil
  then show ?case by simp
next
  case (Cons c calls)
  obtain e1 where e1: "loadedRoutes (fst (do_call accepts c ad)) = loadedRoutes ad @ e1"
    using do_call_extends by blast
  obtain e2 where "loadedRoutes (fold (\<lambda>c a. fst (do_call accepts c a)) calls (fst (do_call accepts c ad)))
       = loadedRoutes (fst (do_call accepts c ad)) @ e2"
    using Cons.IH by blast
  with e1 show ?case by simp
qed

lemma do_calls_booted: "booted ad \<Longrightarrow> booted (do_calls accepts calls ad)"
  unfolding do_calls_def
  by (induction calls arbitrary: ad) (auto intro: do_call_booted)

lemma do_calls_append:
  "do_calls accepts (calls @ later) ad = do_calls accepts later (do_calls accepts calls ad)"
  by (simp add: do_calls_def)

text \<open>
  C7. From a fresh adapter, after any sequence of \<^verbatim>\<open>addContainer\<close>,
  \<^verbatim>\<open>loadRoutesFromContainers\<close> and \<^verbatim>\<open>boot\<close> calls, whatever the library refuses and
  whichever of the calls raise: no route object is twice in the list of loaded routes, and
  further calls only append to the list. Loading the same containers again, after a load
  that returned, changes nothing; with a library that takes every call, every load returns
  and a second load of the same containers changes nothing.
\<close>

theorem loadedRoutes_append_only_distinct:
  "distinct (map route_ref (loadedRoutes (do_calls accepts calls new_Adapter)))
   \<and> (\<exists>extra. loadedRoutes (do_calls accepts (calls @ later) new_Adapter)
                 = loadedRoutes (do_calls accepts calls new_Adapter) @ extra)
   \<and> (snd (loadRoutesFromContainers accepts cs (do_calls accepts calls new_Adapter)) = Normal
        \<longrightarrow> loadRoutesFromContainers accepts cs
              (fst (loadRoutesFromContainers accepts cs (do_calls accepts calls new_Adapter)))
            = (fst (loadRoutesFromContainers accepts cs (do_calls accepts calls new_Adapter)),
               Normal))
   \<and> loadRoutesFromContainers accepts_every_call cs
        (fst (loadRoutesFromContainers accepts_every_call cs
               (do_calls accepts_every_call calls new_Adapter)))
       = loadRoutesFromContainers accepts_every_call cs
           (do_calls accepts_every_call calls new_Adapter)"
proof -
  have "distinct (map route_ref (loadedRoutes new_Adapter))"
    by (simp add: new_Adapter_def)
  then have d: "distinct (map route_ref (loadedRoutes (do_calls accepts calls new_Adapter)))"
    by (rule do_calls_distinct)
  have e: "\<exists>extra. loadedRoutes (do_calls accepts (calls @ later) new_Adapter)
                 = loadedRoutes (do_calls accepts calls new_Adapter) @ extra"
    unfolding do_calls_append by (rule do_calls_extends)
  let ?s = "do_calls accepts_every_call calls new_Adapter"
  have n: "snd (loadRoutesFromContainers accepts_every_call cs ?s) = Normal"
    by (rule load_every_Normal)
  have "loadRoutesFromContainers accepts_every_call cs
          (fst (loadRoutesFromContainers accepts_every_call cs ?s))
        = (fst (loadRoutesFromContainers accepts_every_call cs ?s), Normal)"
    by (rule reload_id [OF n])
  also have "\<dots> = loadRoutesFromContainers accepts_every_call cs ?s"
    using n by (cases "loadRoutesFromContainers accepts_every_call cs ?s") simp
  finally have r: "loadRoutesFromContainers accepts_every_call cs
          (fst (loadRoutesFromContainers accepts_every_call cs ?s))
        = loadRoutesFromContainers accepts_every_call cs ?s" .
  from d e r reload_id [of accepts cs "do_calls accepts calls new_Adapter"] show ?thesis
    by (intro conjI impI)
qed

lemma boot_Normal_booted:
  "snd (boot accepts ad) = Normal \<Longrightarrow> booted (fst (boot accepts ad))"
proof -
  assume n: "snd (boot accepts ad) = Normal"
  let ?regs = "[Register ''fastifyCookie'', Register ''fastifyHelmet'', Register ''fastifyMultipart'']"
  obtain a c where r: "for_each (call_fastify accepts) ?regs ad = (a, c)"
    by (cases "for_each (call_fastify accepts) ?regs ad")
  obtain b k where l: "loadRoutesFromContainers accepts (containers a) a = (b, k)"
    by (cases "loadRoutesFromContainers accepts (containers a) a")
  from n r l show ?thesis
    by (cases "booted ad"; cases c; cases k) (auto simp: boot_def)
qed

lemma boot_booted_id: "booted ad \<Longrightarrow> boot accepts ad = (ad, Normal)"
  by (simp add: boot_def)

text \<open>
  C9, amended. After a \<^verbatim>\<open>boot()\<close> that returned, every later \<^verbatim>\<open>boot()\<close> returns at
  once and changes nothing, right after the first or after any further calls: no plugin is
  registered again and no route is loaded again.
\<close>

theorem boot_idempotent:
  assumes "snd (boot accepts ad) = Normal"
  shows "boot accepts (fst (boot accepts ad)) = (fst (boot accepts ad), Normal)
     \<and> boot accepts (do_calls accepts calls (fst (boot accepts ad)))
         = (do_calls accepts calls (fst (boot accepts ad)), Normal)"
proof -
  have b: "booted (fst (boot accepts ad))"
    using assms by (rule boot_Normal_booted)
  then have "booted (do_calls accepts calls (fst (boot accepts ad)))"
    by (rule do_calls_booted)
  with b show ?thesis by (simp add: boot_booted_id)
qed

text \<open>The definitions that route loading unfolds to on a concrete adapter.\<close>

lemmas route_eval = loadRoutesFromContainers_def loadRoute_def addRouteToHttpMethod_def
  call_fastify_def refuses_connect_def Let_def new_Adapter_def route_binding_url_def trim_def
  is_space_def toLocaleUpperCase_def upper_char_def boot_def

theorem loadedRoutes_append_only_distinct_witness:
  "snd (loadRoutesFromContainers refuses_connect
          [\<lparr>container_ref = 1, allRoutes =
              [\<lparr>route_ref = 1, route_url = ''/a'', route_methods = OneMethod HTTP_get\<rparr>]\<rparr>]
          new_Adapter) = Normal
   \<and> loadRoutesFromContainers refuses_connect
          [\<lparr>container_ref = 1, allRoutes =
              [\<lparr>route_ref = 1, route_url = ''/a'', route_methods = OneMethod HTTP_get\<rparr>]\<rparr>]
          (fst (loadRoutesFromContainers refuses_connect
                 [\<lparr>container_ref = 1, allRoutes =
                     [\<lparr>route_ref = 1, route_url = ''/a'', route_methods = OneMethod HTTP_get\<rparr>]\<rparr>]
                 new_Adapter))
       = (fst (loadRoutesFromContainers refuses_connect
                 [\<lparr>container_ref = 1, allRoutes =
                     [\<lparr>route_ref = 1, route_url = ''/a'', route_methods = OneMethod HTTP_get\<rparr>]\<rparr>]
                 new_Adapter), Normal)"
proof -
  let ?cs = "[\<lparr>container_ref = 1, allRoutes =
              [\<lparr>route_ref = 1, route_url = ''/a'', route_methods = OneMethod HTTP_get\<rparr>]\<rparr>]"
  have h: "snd (loadRoutesFromContainers refuses_connect ?cs new_Adapter) = Normal"
    by (simp add: route_eval)
  have s: "do_calls refuses_connect [] new_Adapter = new_Adapter"
    by (simp add: do_calls_def)
  have "snd (loadRoutesFromContainers refuses_connect ?cs (do_calls refuses_connect [] new_Adapter))
          = Normal
        \<longrightarrow> loadRoutesFromContainers refuses_connect ?cs
              (fst (loadRoutesFromContainers refuses_connect ?cs
                     (do_calls refuses_connect [] new_Adapter)))
            = (fst (loadRoutesFromContainers refuses_connect ?cs
                     (do_calls refuses_connect [] new_Adapter)), Normal)"
    by (rule loadedRoutes_append_only_distinct
          [where accepts = refuses_connect and calls = "[]" and cs = ?cs,
           THEN conjunct2, THEN conjunct2, THEN conjunct1])
  then have "loadRoutesFromContainers refuses_connect ?cs
              (fst (loadRoutesFromContainers refuses_connect ?cs new_Adapter))
            = (fst (loadRoutesFromContainers refuses_connect ?cs new_Adapter), Normal)"
    unfolding s using h by (rule mp)
  with h show ?thesis by (rule conjI)
qed

text \<open>
  C9, as claimed, fails. A container holds a GET route, a CONNECT route and another GET
  route, and the library refuses CONNECT. The first \<^verbatim>\<open>boot()\<close> registers the plugins,
  binds and loads the first route and raises on the second: the adapter is not booted. The
  second \<^verbatim>\<open>boot()\<close> does not return at once: it registers the three plugins again.
\<close>

theorem boot_after_failure_counterexample:
  "snd (boot refuses_connect
     (new_Adapter\<lparr>containers := [\<lparr>container_ref = 1, allRoutes =
        [\<lparr>route_ref = 1, route_url = ''/a'', route_methods = OneMethod HTTP_get\<rparr>,
         \<lparr>route_ref = 2, route_url = ''/b'', route_methods = OneMethod HTTP_connect\<rparr>,
         \<lparr>route_ref = 3, route_url = ''/c'', route_methods = OneMethod HTTP_get\<rparr>]\<rparr>]\<rparr>))
     = Thrown FastifyError
   \<and> booted (fst (boot refuses_connect
     (new_Adapter\<lparr>containers := [\<lparr>container_ref = 1, allRoutes =
        [\<lparr>route_ref = 1, route_url = ''/a'', route_methods = OneMethod HTTP_get\<rparr>,
         \<lparr>route_ref = 2, route_url = ''/b'', route_methods = OneMethod HTTP_connect\<rparr>,
         \<lparr>route_ref = 3, route_url = ''/c'', route_methods = OneMethod HTTP_get\<rparr>]\<rparr>]\<rparr>)))
     = False
   \<and> map route_ref (loadedRoutes (fst (boot refuses_connect
     (new_Adapter\<lparr>containers := [\<lparr>container_ref = 1, allRoutes =
        [\<lparr>route_ref = 1, route_url = ''/a'', route_methods = OneMethod HTTP_get\<rparr>,
         \<lparr>route_ref = 2, route_url = ''/b'', route_methods = OneMethod HTTP_connect\<rparr>,
         \<lparr>route_ref = 3, route_url = ''/c'', route_methods = OneMethod HTTP_get\<rparr>]\<rparr>]\<rparr>))))
     = [1]
   \<and> fastify (fst (boot refuses_connect (fst (boot refuses_connect
     (new_Adapter\<lparr>containers := [\<lparr>container_ref = 1, allRoutes =
        [\<lparr>route_ref = 1, route_url = ''/a'', route_methods = OneMethod HTTP_get\<rparr>,
         \<lparr>route_ref = 2, route_url = ''/b'', route_methods = OneMethod HTTP_connect\<rparr>,
         \<lparr>route_ref = 3, route_url = ''/c'', route_methods = OneMethod HTTP_get\<rparr>]\<rparr>]\<rparr>)))))
     = [Register ''fastifyCookie'', Register ''fastifyHelmet'', Register ''fastifyMultipart'',
        Route ''GET'' ''/a'' 1 HTTP_get,
        Register ''fastifyCookie'', Register ''fastifyHelmet'', Register ''fastifyMultipart'']"
  by (simp add: route_eval)

theorem boot_idempotent_witness:
  "snd (boot refuses_connect
     (new_Adapter\<lparr>containers := [\<lparr>container_ref = 1, allRoutes =
        [\<lparr>route_ref = 1, route_url = ''/a'', route_methods = OneMethod HTTP_get\<rparr>]\<rparr>]\<rparr>))
     = Normal
   \<and> boot refuses_connect (fst (boot refuses_connect
     (new_Adapter\<lparr>containers := [\<lparr>container_ref = 1, allRoutes =
        [\<lparr>route_ref = 1, route_url = ''/a'', route_methods = OneMethod HTTP_get\<rparr>]\<rparr>]\<rparr>)))
     = (fst (boot refuses_connect
     (new_Adapter\<lparr>containers := [\<lparr>container_ref = 1, allRoutes =
        [\<lparr>route_ref = 1, route_url = ''/a'', route_methods = OneMethod HTTP_get\<rparr>]\<rparr>]\<rparr>)), Normal)"
proof -
  let ?ad = "new_Adapter\<lparr>containers := [\<lparr>container_ref = 1, allRoutes =
        [\<lparr>route_ref = 1, route_url = ''/a'', route_methods = OneMethod HTTP_get\<rparr>]\<rparr>]\<rparr>"
  have h: "snd (boot refuses_connect ?ad) = Normal"
    by (simp add: route_eval)
  from boot_idempotent [OF h, of "[]"] h show ?thesis by blast
qed

section \<open>Properties of route binding\<close>

lemma upper_post: "toLocaleUpperCase ''post'' = ''POST''"
  by (simp add: toLocaleUpperCase_def upper_char_def)

text \<open>The upper-cased names of the methods other than \<^verbatim>\<open>search\<close> and \<^verbatim>\<open>all\<close>.\<close>

lemma upper_method_names:
  "map (\<lambda>m. toLocaleUpperCase (method_name m))
     [HTTP_connect, HTTP_delete, HTTP_get, HTTP_head, HTTP_options, HTTP_patch, HTTP_post,
      HTTP_put, HTTP_trace]
   = [''CONNECT'', ''DELETE'', ''GET'', ''HEAD'', ''OPTIONS'', ''PATCH'', ''POST'', ''PUT'',
      ''TRACE'']"
  by (simp add: toLocaleUpperCase_def upper_char_def)

text \<open>
  C10. For a route registered with the method \<^verbatim>\<open>search\<close> or \<^verbatim>\<open>all\<close> a warning is
  printed and Fastify is asked to bind the route under POST; for any other method no
  warning is printed and Fastify is asked to bind the route under that method. When the
  library takes the call, the route is bound so; when it refuses (a method it does not
  support), the call raises, nothing is bound and no event is emitted.
\<close>

theorem addRouteToHttpMethod_binding:
  "(m = HTTP_search \<or> m = HTTP_all \<longrightarrow>
      warned (fst (addRouteToHttpMethod accepts m route ad)) = warned ad @ [unsupported_warning m]
      \<and> (accepts (fastify ad) (Route ''POST'' (route_binding_url route) (route_ref route) HTTP_post)
           \<longrightarrow> snd (addRouteToHttpMethod accepts m route ad) = Normal
             \<and> fastify (fst (addRouteToHttpMethod accepts m route ad))
                 = fastify ad
                   @ [Route ''POST'' (route_binding_url route) (route_ref route) HTTP_post])
      \<and> (\<not> accepts (fastify ad)
              (Route ''POST'' (route_binding_url route) (route_ref route) HTTP_post)
           \<longrightarrow> snd (addRouteToHttpMethod accepts m route ad) = Thrown FastifyError
             \<and> fastify (fst (addRouteToHttpMethod accepts m route ad)) = fastify ad
             \<and> emitted (fst (addRouteToHttpMethod accepts m route ad)) = emitted ad))
   \<and> (m \<noteq> HTTP_search \<and> m \<noteq> HTTP_all \<longrightarrow>
      warned (fst (addRouteToHttpMethod accepts m route ad)) = warned ad
      \<and> (accepts (fastify ad)
            (Route (toLocaleUpperCase (method_name m)) (route_binding_url route) (route_ref route) m)
           \<longrightarrow> snd (addRouteToHttpMethod accepts m route ad) = Normal
             \<and> fastify (fst (addRouteToHttpMethod accepts m route ad))
                 = fastify ad @ [Route (toLocaleUpperCase (method_name m))
                                  (route_binding_url route) (route_ref route) m])
      \<and> (\<not> accepts (fastify ad)
              (Route (toLocaleUpperCase (method_name m)) (route_binding_url route)
                 (route_ref route) m)
           \<longrightarrow> snd (addRouteToHttpMethod accepts m route ad) = Thrown FastifyError
             \<and> fastify (fst (addRouteToHttpMethod accepts m route ad)) = fastify ad
             \<and> emitted (fst (addRouteToHttpMethod accepts m route ad)) = emitted ad))"
  by (auto simp: addRouteToHttpMethod_def call_fastify_def Let_def upper_post
      split: option.splits)

theorem addRouteToHttpMethod_binding_witness:
  "fastify (fst (addRouteToHttpMethod refuses_connect HTTP_search
       \<lparr>route_ref = 7, route_url = ''find '', route_methods = OneMethod HTTP_search\<rparr> new_Adapter))
     = [Route ''POST'' ''/find'' 7 HTTP_post]
   \<and> warned (fst (addRouteToHttpMethod refuses_connect HTTP_search
       \<lparr>route_ref = 7, route_url = ''find '', route_methods = OneMethod HTTP_search\<rparr> new_Adapter))
     = [''Fastify adapter does not support '' @ [CHR 0x22] @ ''SEARCH'' @ [CHR 0x22]
        @ '' HTTP verb, serving route as POST instead'']
   \<and> fastify (fst (addRouteToHttpMethod refuses_connect HTTP_delete
       \<lparr>route_ref = 8, route_url = ''/users/:id'', route_methods = OneMethod HTTP_delete\<rparr> new_Adapter))
     = [Route ''DELETE'' ''/users/:id'' 8 HTTP_delete]
   \<and> warned (fst (addRouteToHttpMethod refuses_connect HTTP_delete
       \<lparr>route_ref = 8, route_url = ''/users/:id'', route_methods = OneMethod HTTP_delete\<rparr> new_Adapter))
     = []
   \<and> addRouteToHttpMethod refuses_connect HTTP_connect
       \<lparr>route_ref = 9, route_url = ''/tunnel'', route_methods = OneMethod HTTP_connect\<rparr> new_Adapter
     = (new_Adapter, Thrown FastifyError)"
  using addRouteToHttpMethod_binding [of HTTP_search refuses_connect
      "\<lparr>route_ref = 7, route_url = ''find '', route_methods = OneMethod HTTP_search\<rparr>" new_Adapter]
    addRouteToHttpMethod_binding [of HTTP_delete refuses_connect
      "\<lparr>route_ref = 8, route_url = ''/users/:id'', route_methods = OneMethod HTTP_delete\<rparr>" new_Adapter]
    addRouteToHttpMethod_binding [of HTTP_connect refuses_connect
      "\<lparr>route_ref = 9, route_url = ''/tunnel'', route_methods = OneMethod HTTP_connect\<rparr>" new_Adapter]
  by (simp add: new_Adapter_def route_binding_url_def trim_def is_space_def refuses_connect_def
      unsupported_warning_def toLocaleUpperCase_def upper_char_def addRouteToHttpMethod_def
      call_fastify_def)

end
